theory Spec2Isabelle
  imports Complex_Main "HOL-Library.AList"
begin

section \<open>The file system, the clocks and the peers\<close>

text \<open>
  \<^verbatim>\<open>lockfile.py\<close> coordinates processes through files of one directory. The model
  makes everything the class touches explicit:
  \<^item> a path is the list of its components (\<open>os.path.join folder name\<close> is
    \<open>folder @ [name]\<close>, \<open>os.path.split\<close> takes the last component off); paths are
    absolute and normalised, so \<open>os.path.abspath\<close> is the identity;
  \<^item> the directory tree is an association list from paths to entries, an entry being
    a regular file or a directory with its modification time;
  \<^item> time is a rational number of seconds; the host clock (\<open>time.time()\<close>) and the
    clock of the storage server (stamped on created files) are two fields, so that
    they may disagree;
  \<^item> \<open>random.randrange\<close> reads the next element of a list of future draws;
  \<^item> the other processes are a schedule: a list of batches of actions, and every
    call that reaches the file system, as well as \<open>time.sleep\<close>, first lets the
    next batch happen. An empty schedule is a quiet environment;
  \<^item> \<open>FileLocker.INSTANCES_LOCKED\<close> is a duplicate-free list of object identities,
    and \<open>next_oid\<close> is the identity the next constructed object gets;
  \<^item> \<open>tz\<close> is the local time zone of the process: the offsets from UTC in seconds,
    each with the time stamp from which it holds (before the first one the offset
    is 0), so that a daylight-saving change is an element of the list;
  \<^item> the module \<open>re\<close> is a parameter of the functions that list tickets.
\<close>

type_synonym path = "string list"

datatype entry = File rat | Dir rat

fun mtime :: "entry \<Rightarrow> rat" where
  "mtime (File t) = t"
| "mtime (Dir t) = t"

datatype action = Touch path entry | Unlink path | Elapse rat

record world =
  fs :: "(path \<times> entry) list"
  local_clock :: rat
  server_clock :: rat
  draws :: "int list"
  peers :: "action list list"
  INSTANCES_LOCKED :: "nat list"
  next_oid :: nat
  tz :: "(rat \<times> rat) list"

datatype error =
    RuntimeError
  | TimeoutError
  | FileNotFoundError
  | IsADirectoryError
  | NotADirectoryError
  | ValueError
  | TypeError
  | re_error
  | Exception string

text \<open>
  \<open>except OSError\<close> (and its alias \<open>IOError\<close>) catches the operating-system errors;
  in Python 3 \<open>TimeoutError\<close> is one of them.
\<close>

fun isOSError :: "error \<Rightarrow> bool" where
  "isOSError FileNotFoundError = True"
| "isOSError IsADirectoryError = True"
| "isOSError NotADirectoryError = True"
| "isOSError TimeoutError = True"
| "isOSError _ = False"

fun apply_action :: "world \<Rightarrow> action \<Rightarrow> world" where
  "apply_action w (Touch p e) = w\<lparr>fs := AList.update p e (fs w)\<rparr>"
| "apply_action w (Unlink p) =
     w\<lparr>fs := filter (\<lambda>(q, _). take (length p) q \<noteq> p) (fs w)\<rparr>"
| "apply_action w (Elapse d) =
     w\<lparr>local_clock := local_clock w + d, server_clock := server_clock w + d\<rparr>"

definition interfere :: "world \<Rightarrow> world" where
  "interfere w =
     (case peers w of
        [] \<Rightarrow> w
      | batch # rest \<Rightarrow> foldl apply_action (w\<lparr>peers := rest\<rparr>) batch)"

definition lookup :: "world \<Rightarrow> path \<Rightarrow> entry option" where
  "lookup w p = map_of (fs w) p"

definition isfile :: "world \<Rightarrow> path \<Rightarrow> bool" where
  "isfile w p = (case lookup w p of Some (File _) \<Rightarrow> True | _ \<Rightarrow> False)"

definition isdir :: "world \<Rightarrow> path \<Rightarrow> bool" where
  "isdir w p = (case lookup w p of Some (Dir _) \<Rightarrow> True | _ \<Rightarrow> False)"

subsection \<open>The calls of \<open>os\<close>, \<open>tempfile\<close>, \<open>time\<close> and \<open>random\<close>\<close>

definition os_path_isdir :: "path \<Rightarrow> world \<Rightarrow> bool \<times> world" where
  "os_path_isdir p w = (let w1 = interfere w in (isdir w1 p, w1))"

definition os_path_isfile :: "path \<Rightarrow> world \<Rightarrow> bool \<times> world" where
  "os_path_isfile p w = (let w1 = interfere w in (isfile w1 p, w1))"

definition os_path_split :: "path \<Rightarrow> path \<times> string" where
  "os_path_split p = (if p = [] then ([], []) else (butlast p, last p))"

definition os_listdir :: "path \<Rightarrow> world \<Rightarrow> (error + string list) \<times> world" where
  "os_listdir d w =
     (let w1 = interfere w in
      case lookup w1 d of
        None \<Rightarrow> (Inl FileNotFoundError, w1)
      | Some (File _) \<Rightarrow> (Inl NotADirectoryError, w1)
      | Some (Dir _) \<Rightarrow>
          (Inr (remdups (map (\<lambda>(q, _). last q)
                 (filter (\<lambda>(q, _). q \<noteq> [] \<and> butlast q = d) (fs w1)))), w1))"

definition os_path_getmtime :: "path \<Rightarrow> world \<Rightarrow> (error + rat) \<times> world" where
  "os_path_getmtime p w =
     (let w1 = interfere w in
      case lookup w1 p of
        None \<Rightarrow> (Inl FileNotFoundError, w1)
      | Some e \<Rightarrow> (Inr (mtime e), w1))"

definition os_remove :: "path \<Rightarrow> world \<Rightarrow> (error + unit) \<times> world" where
  "os_remove p w =
     (let w1 = interfere w in
      case lookup w1 p of
        None \<Rightarrow> (Inl FileNotFoundError, w1)
      | Some (Dir _) \<Rightarrow> (Inl IsADirectoryError, w1)
      | Some (File _) \<Rightarrow> (Inr (), w1\<lparr>fs := AList.delete p (fs w1)\<rparr>))"

text \<open>\<open>open(path, 'w').close()\<close>: creates the file, or truncates it, stamped with the
  server's clock.\<close>

definition open_w :: "path \<Rightarrow> world \<Rightarrow> (error + unit) \<times> world" where
  "open_w p w =
     (let w1 = interfere w in
      if p = [] \<or> \<not> isdir w1 (butlast p) then (Inl FileNotFoundError, w1)
      else if isdir w1 p then (Inl IsADirectoryError, w1)
      else (Inr (), w1\<lparr>fs := AList.update p (File (server_clock w1)) (fs w1)\<rparr>))"

text \<open>
  \<open>tempfile.NamedTemporaryFile(dir=folder)\<close>, \<open>os.path.getmtime\<close> of it and its
  \<open>close()\<close>, as one step: the throwaway file is stamped with the server's clock and
  is gone afterwards, so the directory is as before.
\<close>

definition tempfile_mtime :: "path \<Rightarrow> world \<Rightarrow> (error + rat) \<times> world" where
  "tempfile_mtime d w =
     (let w1 = interfere w in
      if isdir w1 d then (Inr (server_clock w1), w1) else (Inl FileNotFoundError, w1))"

definition time_time :: "world \<Rightarrow> rat" where
  "time_time w = local_clock w"

definition time_sleep :: "rat \<Rightarrow> world \<Rightarrow> world" where
  "time_sleep d w =
     interfere (w\<lparr>local_clock := local_clock w + d, server_clock := server_clock w + d\<rparr>)"

text \<open>
  \<open>datetime.datetime.fromtimestamp(t)\<close>: the naive local time of the time stamp
  \<open>t\<close>, as seconds, rounded to microseconds (half to even) and shifted by the offset
  the local zone has at \<open>t\<close>. The difference of two such values is what
  \<open>(a - b).total_seconds()\<close> gives. Time stamps are taken to lie in the years that
  \<open>datetime\<close> can hold.
\<close>

definition utcoffset :: "(rat \<times> rat) list \<Rightarrow> rat \<Rightarrow> rat" where
  "utcoffset zone t = foldl (\<lambda>off (since, off'). if since \<le> t then off' else off) 0 zone"

definition round_half_even :: "rat \<Rightarrow> int" where
  "round_half_even x =
     (let f = \<lfloor>x\<rfloor>; d = x - of_int f
      in if d < 1 / 2 then f else if 1 / 2 < d then f + 1 else if even f then f else f + 1)"

definition fromtimestamp :: "(rat \<times> rat) list \<Rightarrow> rat \<Rightarrow> rat" where
  "fromtimestamp zone t = of_int (round_half_even (t * 1000000)) / 1000000 + utcoffset zone t"

text \<open>\<open>_RAND_RANGE = 10e5\<close>, the float 1000000.0, which \<open>randrange\<close> takes as 1000000.\<close>

definition RAND_RANGE :: int where
  "RAND_RANGE = 1000000"

definition random_randrange :: "int \<Rightarrow> world \<Rightarrow> int \<times> world" where
  "random_randrange n w =
     (case draws w of
        [] \<Rightarrow> (0, w)
      | d # ds \<Rightarrow> (d mod n, w\<lparr>draws := ds\<rparr>))"

section \<open>The class \<open>FileLocker\<close>\<close>

text \<open>
  A private attribute \<open>__x\<close> of the class is the field \<open>p_x\<close>; \<open>oid\<close> is the
  identity of the object, by which the weak set \<open>INSTANCES_LOCKED\<close> refers to it.
  \<open>p_id\<close> is \<open>-1\<close> and the optional attributes are \<open>None\<close> until \<open>lock\<close> sets them.
  Objects are taken to stay alive, so the weak set loses an element only through
  \<open>remove\<close>. \<open>wrapWithMonkeyPatch\<close>, which stores the result of \<open>wrapWithDecorator\<close>
  into an attribute of another object, is left out.
\<close>

record FileLocker =
  oid :: nat
  timeout :: int
  p_folder :: path
  p_filename :: string
  p_pathLocker :: "path option"
  p_id :: int
  p_isLocked :: bool
  p_start :: "rat option"
  p_serverTimeLock :: "rat option"

subsection \<open>Ticket names\<close>

definition digit_char :: "nat \<Rightarrow> char" where
  "digit_char n = ''0123456789'' ! (n mod 10)"

fun decimal :: "nat \<Rightarrow> string" where
  "decimal n = (if n < 10 then [digit_char n] else decimal (n div 10) @ [digit_char (n mod 10)])"

definition zfill :: "nat \<Rightarrow> string \<Rightarrow> string" where
  "zfill k s = replicate (k - length s) (CHR ''0'') @ s"

text \<open>The format specification \<open>{:06d}\<close>: width six with the sign counted, zero padded.\<close>

definition format_06d :: "int \<Rightarrow> string" where
  "format_06d i =
     (if i < 0 then CHR ''-'' # zfill 5 (decimal (nat (- i))) else zfill 6 (decimal (nat i)))"

text \<open>\<open>_LOCK_FORMAT.format(filename, id)\<close> with \<open>_LOCK_FORMAT = "{}.{:06d}"\<close>.\<close>

definition LOCK_FORMAT :: "string \<Rightarrow> int \<Rightarrow> string" where
  "LOCK_FORMAT filename i = filename @ ''.'' @ format_06d i"

definition isdigit :: "char \<Rightarrow> bool" where
  "isdigit c = (c \<in> set ''0123456789'')"

definition digit_val :: "char \<Rightarrow> nat" where
  "digit_val c =
     (case map_of (zip ''0123456789'' [0, 1, 2, 3, 4, 5, 6, 7, 8, 9]) c of
        Some v \<Rightarrow> v | None \<Rightarrow> 0)"

definition parse_int :: "string \<Rightarrow> int" where
  "parse_int s = int (foldl (\<lambda>a c. 10 * a + digit_val c) 0 s)"

text \<open>
  The module \<open>re\<close> is a parameter. \<open>re_compile pattern\<close> is \<open>None\<close> when
  \<open>re.compile(pattern)\<close> raises \<open>re.error\<close>; otherwise it is the compiled pattern,
  as the function that takes a name to \<open>None\<close> when \<open>pattern.match(name)\<close> is \<open>None\<close>
  and else to the text of the group \<open>counter\<close>. The pattern of a handle is
  \<open>_LOCK_REGEX_FORMAT.format(filename)\<close> with
  \<open>_LOCK_REGEX_FORMAT = "{}\.(?P<counter>[0-9]{{6}})"\<close>: the base name goes into it
  as it is, so its metacharacters are read as such (the dot of \<open>results.npz\<close> matches
  any character). The group is six digits, on which \<open>int\<close> is \<open>parse_int\<close>.
\<close>

type_synonym compiled = "string \<Rightarrow> string option"

type_synonym re_module = "string \<Rightarrow> compiled option"

definition LOCK_REGEX_FORMAT :: "string \<Rightarrow> string" where
  "LOCK_REGEX_FORMAT filename = filename @ [CHR 0x5C] @ ''.(?P<counter>[0-9]{6})''"

text \<open>
  What \<open>re\<close> does on the pattern of a base name of letters, digits and underscores:
  \<open>match\<close> anchors at the start of the name only, so a name matches when it is the
  base name, a dot, six digits and any rest. \<open>plain_re_compile\<close> is exact on these
  patterns and refuses every other one; it is the module of the example runs, whose
  base name is \<open>locker\<close>.
\<close>

definition plain_match :: "string \<Rightarrow> compiled" where
  "plain_match filename name =
     (let n = length filename; rest = drop n name in
      if take n name = filename \<and> rest \<noteq> [] \<and> hd rest = CHR ''.''
         \<and> 6 \<le> length (tl rest) \<and> list_all isdigit (take 6 (tl rest))
      then Some (take 6 (tl rest)) else None)"

definition plain_re_compile :: re_module where
  "plain_re_compile pattern =
     (let k = length pattern - length (LOCK_REGEX_FORMAT []); filename = take k pattern
      in if pattern = LOCK_REGEX_FORMAT filename
            \<and> list_all
                 (\<lambda>c. c \<in> set ''abcdefghijklmnopqrstuvwxyzABCDEFGHIJKLMNOPQRSTUVWXYZ0123456789_'')
                 filename
         then Some (plain_match filename) else None)"

subsection \<open>Construction\<close>

definition init :: "path \<Rightarrow> int \<Rightarrow> world \<Rightarrow> (error + FileLocker) \<times> world" where
  "init path tmo w =
     (let (d, w1) = os_path_isdir path w;
          (folder, filename) = (if d then (path, ''locker'') else os_path_split path);
          self = \<lparr>oid = next_oid w1, timeout = tmo, p_folder = folder, p_filename = filename,
                  p_pathLocker = None, p_id = - 1, p_isLocked = False, p_start = None,
                  p_serverTimeLock = None\<rparr>;
          w2 = w1\<lparr>next_oid := Suc (next_oid w1)\<rparr>;
          (d', w3) = os_path_isdir folder w2
      in if \<not> d'
         then (Inl (Exception ''The specified path is not contained in an existing directory''), w3)
         else (Inr self, w3))"

subsection \<open>The reference clock: the property \<open>_serverTimeLock\<close>\<close>

definition serverTimeLock :: "FileLocker \<Rightarrow> world \<Rightarrow> (error + rat) \<times> FileLocker \<times> world" where
  "serverTimeLock self w =
     (case p_serverTimeLock self of
        None \<Rightarrow>
          (case tempfile_mtime (p_folder self) w of
             (Inl e, w1) \<Rightarrow> (Inl e, self, w1)
           | (Inr m, w1) \<Rightarrow>
               (let t = fromtimestamp (tz w1) m
                in (Inr t, self\<lparr>p_serverTimeLock := Some t\<rparr>, w1)))
      | Some t \<Rightarrow> (Inr t, self, w))"

subsection \<open>Listing the tickets and removing the old ones: \<open>__getLockFileIds\<close>\<close>

text \<open>The body of the \<open>try\<close> for one path.\<close>

definition check_age :: "FileLocker \<Rightarrow> world \<Rightarrow> path \<Rightarrow> (error + unit) \<times> FileLocker \<times> world" where
  "check_age self w path =
     (case os_path_getmtime path w of
        (Inl e, w1) \<Rightarrow> (Inl e, self, w1)
      | (Inr m, w1) \<Rightarrow>
          (let serverTimeOtherLock = fromtimestamp (tz w1) m in
           case serverTimeLock self w1 of
             (Inl e, self2, w2) \<Rightarrow> (Inl e, self2, w2)
           | (Inr t, self2, w2) \<Rightarrow>
               if of_int (timeout self2) < t - serverTimeOtherLock
               then (case os_remove path w2 of (r, w3) \<Rightarrow> (r, self2, w3))
               else (Inr (), self2, w2)))"

text \<open>The \<open>try\<close> with its \<open>except OSError: pass\<close>.\<close>

definition try_check_age :: "FileLocker \<Rightarrow> world \<Rightarrow> path \<Rightarrow> (error + unit) \<times> FileLocker \<times> world" where
  "try_check_age self w path =
     (case check_age self w path of
        (Inl e, self1, w1) \<Rightarrow> if isOSError e then (Inr (), self1, w1) else (Inl e, self1, w1)
      | (Inr u, self1, w1) \<Rightarrow> (Inr u, self1, w1))"

fun cleanup :: "FileLocker \<Rightarrow> world \<Rightarrow> path list \<Rightarrow> (error + unit) \<times> FileLocker \<times> world" where
  "cleanup self w [] = (Inr (), self, w)"
| "cleanup self w (path # fullPaths) =
     (case try_check_age self w path of
        (Inl e, self1, w1) \<Rightarrow> (Inl e, self1, w1)
      | (Inr _, self1, w1) \<Rightarrow> cleanup self1 w1 fullPaths)"

definition getLockFileIds ::
  "re_module \<Rightarrow> FileLocker \<Rightarrow> world \<Rightarrow> (error + int list) \<times> FileLocker \<times> world" where
  "getLockFileIds re_compile self w =
     (case re_compile (LOCK_REGEX_FORMAT (p_filename self)) of
        None \<Rightarrow> (Inl re_error, self, w)
      | Some pattern \<Rightarrow>
          (case os_listdir (p_folder self) w of
             (Inl e, w1) \<Rightarrow> (Inl e, self, w1)
           | (Inr names, w1) \<Rightarrow>
               (let fileLockerMatches =
                      List.map_filter (\<lambda>name. map_option (Pair name) (pattern name)) names;
                    fullPaths = map (\<lambda>(name, _). p_folder self @ [name]) fileLockerMatches
                in case cleanup self w1 fullPaths of
                     (Inl e, self2, w2) \<Rightarrow> (Inl e, self2, w2)
                   | (Inr _, self2, w2) \<Rightarrow>
                       (Inr (map (\<lambda>(_, counter). parse_int counter) fileLockerMatches),
                        self2, w2))))"

subsection \<open>\<open>unlock\<close>, \<open>__sleep\<close> and \<open>locked\<close>\<close>

definition unlock :: "FileLocker \<Rightarrow> world \<Rightarrow> (error + unit) \<times> world" where
  "unlock self w =
     (let w1 = (if oid self \<in> set (INSTANCES_LOCKED w)
                then w\<lparr>INSTANCES_LOCKED := removeAll (oid self) (INSTANCES_LOCKED w)\<rparr>
                else w)
      in case p_pathLocker self of
           None \<Rightarrow> (Inr (), w1)
         | Some p \<Rightarrow>
             (let (f, w2) = os_path_isfile p w1
              in if f then os_remove p w2 else (Inr (), w2)))"

definition sleep :: "FileLocker \<Rightarrow> world \<Rightarrow> (error + unit) \<times> world" where
  "sleep self w =
     (case p_start self of
        None \<Rightarrow> (Inl TypeError, w)
      | Some s \<Rightarrow>
          if s + of_int (timeout self) < time_time w
          then (case unlock self w of
                  (Inl e, w1) \<Rightarrow> (Inl e, w1)
                | (Inr _, w1) \<Rightarrow> (Inl TimeoutError, w1))
          else (Inr (), time_sleep (1 / 2) w))"

definition locked :: "FileLocker \<Rightarrow> bool" where
  "locked self = p_isLocked self"

subsection \<open>\<open>lock\<close>\<close>

text \<open>
  Python's \<open>min\<close> raises \<open>ValueError\<close> on an empty list.
\<close>

fun py_min :: "int list \<Rightarrow> error + int" where
  "py_min [] = Inl ValueError"
| "py_min (x # xs) = Inr (fold min xs x)"

text \<open>
  The loops of \<open>lock\<close> take fuel, the number of iterations they may still run: the loop
  that draws the ticket id ends only when a free name is drawn, and the waiting loops
  end only when the clock passes the deadline. \<open>None\<close> is a loop that has not
  returned within the fuel.

  \<open>draw_loop\<close> is \<open>while self.__pathLocker is None or os.path.isfile(self.__pathLocker)\<close>.
\<close>

fun draw_loop :: "nat \<Rightarrow> FileLocker \<Rightarrow> world \<Rightarrow> (FileLocker \<times> world) option" where
  "draw_loop 0 self w = None"
| "draw_loop (Suc n) self w =
     (let (again, w1) =
            (case p_pathLocker self of
               None \<Rightarrow> (True, w)
             | Some p \<Rightarrow> os_path_isfile p w)
      in if again
         then (let (i, w2) = random_randrange RAND_RANGE w1;
                   lockname = LOCK_FORMAT (p_filename self) i
               in draw_loop n
                    (self\<lparr>p_id := i, p_pathLocker := Some (p_folder self @ [lockname])\<rparr>) w2)
         else Some (self, w1))"

text \<open>The \<open>try: open(...).close()\<close> with its \<open>except IOError: raise Exception(...)\<close>.\<close>

definition create_ticket :: "FileLocker \<Rightarrow> world \<Rightarrow> (error + unit) \<times> world" where
  "create_ticket self w =
     (case p_pathLocker self of
        None \<Rightarrow> (Inl TypeError, w)
      | Some p \<Rightarrow>
          (case open_w p w of
             (Inl e, w1) \<Rightarrow>
               if isOSError e then (Inl (Exception ''Cannot create the lock file''), w1)
               else (Inl e, w1)
           | (Inr u, w1) \<Rightarrow> (Inr u, w1)))"

text \<open>The inner \<open>while True\<close>, entered once the ticket exists.\<close>

fun wait_loop ::
  "re_module \<Rightarrow> nat \<Rightarrow> FileLocker \<Rightarrow> world \<Rightarrow> ((error + unit) \<times> FileLocker \<times> world) option" where
  "wait_loop re_compile 0 self w = None"
| "wait_loop re_compile (Suc n) self w =
     (case sleep self w of
        (Inl e, w1) \<Rightarrow> Some (Inl e, self, w1)
      | (Inr _, w1) \<Rightarrow>
          (case getLockFileIds re_compile self w1 of
             (Inl e, self2, w2) \<Rightarrow> Some (Inl e, self2, w2)
           | (Inr ids, self2, w2) \<Rightarrow>
               (case py_min ids of
                  Inl e \<Rightarrow> Some (Inl e, self2, w2)
                | Inr m \<Rightarrow>
                    if m = p_id self2 then Some (Inr (), self2\<lparr>p_isLocked := False\<rparr>, w2)
                    else wait_loop re_compile n self2 w2)))"

text \<open>The outer \<open>while self.__isLocked\<close>.\<close>

fun lock_loop ::
  "re_module \<Rightarrow> nat \<Rightarrow> FileLocker \<Rightarrow> world \<Rightarrow> ((error + unit) \<times> FileLocker \<times> world) option" where
  "lock_loop re_compile 0 self w = None"
| "lock_loop re_compile (Suc n) self w =
     (if \<not> p_isLocked self then Some (Inr (), self, w)
      else
        (case getLockFileIds re_compile self w of
           (Inl e, self1, w1) \<Rightarrow> Some (Inl e, self1, w1)
         | (Inr ids, self1, w1) \<Rightarrow>
             if ids = [] then
               (case draw_loop n self1 w1 of
                  None \<Rightarrow> None
                | Some (self2, w2) \<Rightarrow>
                    (case create_ticket self2 w2 of
                       (Inl e, w3) \<Rightarrow> Some (Inl e, self2, w3)
                     | (Inr _, w3) \<Rightarrow>
                         (case wait_loop re_compile n self2 w3 of
                            None \<Rightarrow> None
                          | Some (Inl e, self3, w4) \<Rightarrow> Some (Inl e, self3, w4)
                          | Some (Inr _, self3, w4) \<Rightarrow> lock_loop re_compile n self3 w4)))
             else
               (case sleep self1 w1 of
                  (Inl e, w2) \<Rightarrow> Some (Inl e, self1, w2)
                | (Inr _, w2) \<Rightarrow> lock_loop re_compile n self1 w2)))"

definition lock ::
  "re_module \<Rightarrow> nat \<Rightarrow> FileLocker \<Rightarrow> world \<Rightarrow> ((error + unit) \<times> FileLocker \<times> world) option" where
  "lock re_compile n self w =
     (if p_isLocked self then Some (Inl RuntimeError, self, w)
      else
        (let w1 = w\<lparr>INSTANCES_LOCKED := List.insert (oid self) (INSTANCES_LOCKED w)\<rparr>;
             self1 = self\<lparr>p_start := Some (time_time w1), p_isLocked := True\<rparr>
         in lock_loop re_compile n self1 w1))"

subsection \<open>The context manager and the decorator\<close>

definition enter ::
  "re_module \<Rightarrow> nat \<Rightarrow> FileLocker \<Rightarrow> world \<Rightarrow> ((error + unit) \<times> FileLocker \<times> world) option" where
  "enter re_compile n self w = lock re_compile n self w"

definition exit :: "FileLocker \<Rightarrow> world \<Rightarrow> (error + unit) \<times> world" where
  "exit self w = unlock self w"

text \<open>
  \<open>with locker: return body()\<close>. When \<open>__enter__\<close> raises, the body and \<open>__exit__\<close> do
  not run. Otherwise \<open>__exit__\<close> runs after the body, whether it returned or raised;
  \<open>__exit__\<close> returns \<open>None\<close>, so an error of the body goes on to the caller, unless
  \<open>__exit__\<close> raises itself.
\<close>

definition with_statement ::
  "re_module \<Rightarrow> nat \<Rightarrow> FileLocker \<Rightarrow> (world \<Rightarrow> (error + 'r) \<times> world) \<Rightarrow> world \<Rightarrow> ((error + 'r) \<times> world) option" where
  "with_statement re_compile n locker body w =
     (case enter re_compile n locker w of
        None \<Rightarrow> None
      | Some (Inl e, locker1, w1) \<Rightarrow> Some (Inl e, w1)
      | Some (Inr _, locker1, w1) \<Rightarrow>
          (case body w1 of
             (r, w2) \<Rightarrow>
               (case exit locker1 w2 of
                  (Inl e, w3) \<Rightarrow> Some (Inl e, w3)
                | (Inr _, w3) \<Rightarrow> Some (r, w3))))"

text \<open>
  The function \<open>wrapper\<close> that \<open>wrapWithDecorator\<close> builds around \<open>method\<close>. A method
  takes its arguments and the world and returns or raises; \<open>condition\<close> is a predicate
  on the arguments, \<open>None\<close> when the keyword is not given.
\<close>

definition wrapper ::
  "re_module \<Rightarrow> FileLocker \<Rightarrow> ('a \<Rightarrow> bool) option \<Rightarrow> ('a \<Rightarrow> world \<Rightarrow> (error + 'r) \<times> world)
     \<Rightarrow> nat \<Rightarrow> 'a \<Rightarrow> world \<Rightarrow> ((error + 'r) \<times> world) option" where
  "wrapper re_compile self condition method n args w =
     (if (case condition of None \<Rightarrow> False | Some c \<Rightarrow> \<not> c args)
      then Some (method args w)
      else
        (case init (p_folder self @ [p_filename self]) (timeout self) w of
           (Inl e, w1) \<Rightarrow> Some (Inl e, w1)
         | (Inr locker, w1) \<Rightarrow> with_statement re_compile n locker (method args) w1))"

definition container ::
  "re_module \<Rightarrow> FileLocker \<Rightarrow> ('a \<Rightarrow> bool) option \<Rightarrow> ('a \<Rightarrow> world \<Rightarrow> (error + 'r) \<times> world)
     \<Rightarrow> nat \<Rightarrow> 'a \<Rightarrow> world \<Rightarrow> ((error + 'r) \<times> world) option" where
  "container re_compile self condition method = wrapper re_compile self condition method"

text \<open>Without \<open>func\<close> the result is the decorator, with it the wrapped function.\<close>

definition wrapWithDecorator ::
  "re_module \<Rightarrow> FileLocker \<Rightarrow> ('a \<Rightarrow> world \<Rightarrow> (error + 'r) \<times> world) option \<Rightarrow> ('a \<Rightarrow> bool) option
     \<Rightarrow> (('a \<Rightarrow> world \<Rightarrow> (error + 'r) \<times> world)
            \<Rightarrow> nat \<Rightarrow> 'a \<Rightarrow> world \<Rightarrow> ((error + 'r) \<times> world) option)
         + (nat \<Rightarrow> 'a \<Rightarrow> world \<Rightarrow> ((error + 'r) \<times> world) option)" where
  "wrapWithDecorator re_compile self func condition =
     (case func of
        None \<Rightarrow> Inl (container re_compile self condition)
      | Some f \<Rightarrow> Inr (container re_compile self condition f))"

subsection \<open>The exit hook \<open>__unlockall\<close>\<close>



section \<open>Auxiliary notions for the proofs\<close>

text \<open>
  \<open>evolves\<close>: the listing changes nothing of a handle but the cached reading of the
  reference clock, and never a reading that is there. \<open>stable\<close>: what every loop of
  \<open>lock\<close> leaves as it is. \<open>lock_post\<close>: what holds when the outer loop ends.
  \<open>overdue\<close>: the path is a regular file whose age, counted from the reading \<open>t\<close>,
  exceeds the timeout.
\<close>

definition evolves :: "FileLocker \<Rightarrow> FileLocker \<Rightarrow> bool" where
  "evolves self self' \<longleftrightarrow>
     (\<exists>c. self' = self\<lparr>p_serverTimeLock := c\<rparr>)
     \<and> (\<forall>t. p_serverTimeLock self = Some t \<longrightarrow> p_serverTimeLock self' = Some t)"

definition stable :: "FileLocker \<Rightarrow> FileLocker \<Rightarrow> bool" where
  "stable self self' \<longleftrightarrow>
     oid self' = oid self \<and> timeout self' = timeout self \<and> p_folder self' = p_folder self
     \<and> p_filename self' = p_filename self \<and> p_start self' = p_start self
     \<and> (\<forall>t. p_serverTimeLock self = Some t \<longrightarrow> p_serverTimeLock self' = Some t)"

definition lock_post :: "FileLocker \<Rightarrow> world \<Rightarrow> error + unit \<Rightarrow> FileLocker \<Rightarrow> world \<Rightarrow> bool" where
  "lock_post self w r self' w' \<longleftrightarrow>
     stable self self'
     \<and> (r = Inl TimeoutError \<longrightarrow>
          (\<exists>w0 s. p_start self' = Some s \<and> s + of_int (timeout self') < time_time w0
                  \<and> unlock self' w0 = (Inr (), w')))
     \<and> (case r of Inl e \<Rightarrow> p_isLocked self' | Inr _ \<Rightarrow> \<not> p_isLocked self')
     \<and> ((case r of Inl e \<Rightarrow> \<not> isOSError e | Inr _ \<Rightarrow> True) \<longrightarrow>
          INSTANCES_LOCKED w' = INSTANCES_LOCKED w)"


text \<open>
  The loops of \<open>lock\<close> once more, returning also the poll points: the handle and the
  world at every call of \<open>__sleep\<close>, in order. Dropping the poll points gives the
  loops above (\<open>lock_log_snd\<close>). \<open>slept\<close>: \<open>__sleep\<close> returns at a poll point.
  \<open>log_post\<close>: what holds of the poll points when a loop ends.
\<close>

fun wait_loop_log ::
  "re_module \<Rightarrow> nat \<Rightarrow> FileLocker \<Rightarrow> world
     \<Rightarrow> (FileLocker \<times> world) list \<times> ((error + unit) \<times> FileLocker \<times> world) option" where
  "wait_loop_log re_compile 0 self w = ([], None)"
| "wait_loop_log re_compile (Suc n) self w =
     (case sleep self w of
        (Inl e, w1) \<Rightarrow> ([(self, w)], Some (Inl e, self, w1))
      | (Inr _, w1) \<Rightarrow>
          (case getLockFileIds re_compile self w1 of
             (Inl e, self2, w2) \<Rightarrow> ([(self, w)], Some (Inl e, self2, w2))
           | (Inr ids, self2, w2) \<Rightarrow>
               (case py_min ids of
                  Inl e \<Rightarrow> ([(self, w)], Some (Inl e, self2, w2))
                | Inr m \<Rightarrow>
                    if m = p_id self2
                    then ([(self, w)], Some (Inr (), self2\<lparr>p_isLocked := False\<rparr>, w2))
                    else (case wait_loop_log re_compile n self2 w2 of
                            (polls, r) \<Rightarrow> ((self, w) # polls, r)))))"

fun lock_loop_log ::
  "re_module \<Rightarrow> nat \<Rightarrow> FileLocker \<Rightarrow> world
     \<Rightarrow> (FileLocker \<times> world) list \<times> ((error + unit) \<times> FileLocker \<times> world) option" where
  "lock_loop_log re_compile 0 self w = ([], None)"
| "lock_loop_log re_compile (Suc n) self w =
     (if \<not> p_isLocked self then ([], Some (Inr (), self, w))
      else
        (case getLockFileIds re_compile self w of
           (Inl e, self1, w1) \<Rightarrow> ([], Some (Inl e, self1, w1))
         | (Inr ids, self1, w1) \<Rightarrow>
             if ids = [] then
               (case draw_loop n self1 w1 of
                  None \<Rightarrow> ([], None)
                | Some (self2, w2) \<Rightarrow>
                    (case create_ticket self2 w2 of
                       (Inl e, w3) \<Rightarrow> ([], Some (Inl e, self2, w3))
                     | (Inr _, w3) \<Rightarrow>
                         (case wait_loop_log re_compile n self2 w3 of
                            (polls, None) \<Rightarrow> (polls, None)
                          | (polls, Some (Inl e, self3, w4)) \<Rightarrow> (polls, Some (Inl e, self3, w4))
                          | (polls, Some (Inr _, self3, w4)) \<Rightarrow>
                              (case lock_loop_log re_compile n self3 w4 of
                                 (polls', r) \<Rightarrow> (polls @ polls', r)))))
             else
               (case sleep self1 w1 of
                  (Inl e, w2) \<Rightarrow> ([(self1, w1)], Some (Inl e, self1, w2))
                | (Inr _, w2) \<Rightarrow>
                    (case lock_loop_log re_compile n self1 w2 of
                       (polls, r) \<Rightarrow> ((self1, w1) # polls, r)))))"

definition lock_log ::
  "re_module \<Rightarrow> nat \<Rightarrow> FileLocker \<Rightarrow> world
     \<Rightarrow> (FileLocker \<times> world) list \<times> ((error + unit) \<times> FileLocker \<times> world) option" where
  "lock_log re_compile n self w =
     (if p_isLocked self then ([], Some (Inl RuntimeError, self, w))
      else
        (let w1 = w\<lparr>INSTANCES_LOCKED := List.insert (oid self) (INSTANCES_LOCKED w)\<rparr>;
             self1 = self\<lparr>p_start := Some (time_time w1), p_isLocked := True\<rparr>
         in lock_loop_log re_compile n self1 w1))"

definition slept :: "FileLocker \<times> world \<Rightarrow> bool" where
  "slept p = (case sleep (fst p) (snd p) of (Inl _, _) \<Rightarrow> False | (Inr _, _) \<Rightarrow> True)"

definition log_post ::
  "FileLocker \<Rightarrow> (FileLocker \<times> world) list \<times> ((error + unit) \<times> FileLocker \<times> world) option
     \<Rightarrow> bool" where
  "log_post self lr \<longleftrightarrow>
     (\<forall>p \<in> set (fst lr). stable self (fst p))
     \<and> list_all slept (butlast (fst lr))
     \<and> (\<forall>u s' w'. snd lr = Some (Inr u, s', w') \<longrightarrow> list_all slept (fst lr))
     \<and> (\<forall>s' w'. snd lr = Some (Inl TimeoutError, s', w') \<longrightarrow>
           fst lr \<noteq> [] \<and> fst (last (fst lr)) = s'
           \<and> sleep s' (snd (last (fst lr))) = (Inl TimeoutError, w'))"

section \<open>Example states\<close>

text \<open>
  A directory \<open>data\<close>, a handle on it with a timeout of one second, and the states
  that the runs below start from and end in.
\<close>

definition ex_world :: world where
  "ex_world = \<lparr>fs = [([''data''], Dir 0)], local_clock = 100, server_clock = 500, draws = [42],
         peers = [], INSTANCES_LOCKED = [], next_oid = 1, tz = []\<rparr>"

definition ex_locker :: FileLocker where
  "ex_locker = \<lparr>oid = 0, timeout = 1, p_folder = [''data''], p_filename = ''locker'',
         p_pathLocker = None, p_id = - 1, p_isLocked = False, p_start = None,
         p_serverTimeLock = None\<rparr>"

definition ex_locker_acquired :: FileLocker where
  "ex_locker_acquired = ex_locker\<lparr>p_pathLocker := Some [''data'', ''locker.000042''], p_id := 42,
      p_start := Some 100, p_serverTimeLock := Some (1001 / 2)\<rparr>"

definition ex_world_acquired :: world where
  "ex_world_acquired = \<lparr>fs = [([''data''], Dir 0), ([''data'', ''locker.000042''], File 500)],
      local_clock = 201 / 2, server_clock = 1001 / 2, draws = [],
      peers = [], INSTANCES_LOCKED = [0], next_oid = 1, tz = []\<rparr>"

definition ex_world_rival :: world where
  "ex_world_rival =
     ex_world\<lparr>peers := [[], [], [], [Touch [''data'', ''locker.000007''] (File 500)]]\<rparr>"

definition ex_locker_timed_out :: FileLocker where
  "ex_locker_timed_out = ex_locker_acquired\<lparr>p_isLocked := True\<rparr>"

definition ex_world_timed_out :: world where
  "ex_world_timed_out = \<lparr>fs = [([''data''], Dir 0), ([''data'', ''locker.000007''], File 500)],
      local_clock = 203 / 2, server_clock = 1003 / 2, draws = [],
      peers = [], INSTANCES_LOCKED = [], next_oid = 1, tz = []\<rparr>"

definition ex_world_reaped :: world where
  "ex_world_reaped = ex_world\<lparr>peers := [[], [], [], [Unlink [''data'', ''locker.000042'']]]\<rparr>"

definition ex_locker_clocked :: FileLocker where
  "ex_locker_clocked = ex_locker\<lparr>p_serverTimeLock := Some 500\<rparr>"

definition ex_world_nofolder :: world where
  "ex_world_nofolder = ex_world\<lparr>peers := [[], [], [Unlink [''data'']]]\<rparr>"

definition ex_locker_waiting :: FileLocker where
  "ex_locker_waiting = ex_locker\<lparr>p_start := Some 100, p_isLocked := True\<rparr>"

definition ex_locker_drawn :: FileLocker where
  "ex_locker_drawn =
     ex_locker_waiting\<lparr>p_pathLocker := Some [''data'', ''locker.000042''], p_id := 42\<rparr>"



definition ex_world_nested :: world where
  "ex_world_nested = ex_world\<lparr>fs := [([''data''], Dir 0), ([''data'', ''locker''], Dir 0)]\<rparr>"

definition ex_method :: "unit \<Rightarrow> world \<Rightarrow> (error + path list) \<times> world" where
  "ex_method args w = (Inr (map fst (fs w)), w)"


definition ex_world_nested_held :: world where
  "ex_world_nested_held =
     ex_world\<lparr>fs := [([''data''], Dir 0), ([''data'', ''locker''], Dir 0),
                     ([''data'', ''locker.000007''], File 500)]\<rparr>"

section \<open>Properties\<close>

lemma apply_action_registry:
  "INSTANCES_LOCKED (apply_action w a) = INSTANCES_LOCKED w"
  by (cases a) simp_all

lemma foldl_apply_action_registry:
  "INSTANCES_LOCKED (foldl apply_action w as) = INSTANCES_LOCKED w"
  by (induction as arbitrary: w) (simp_all add: apply_action_registry)

lemma interfere_registry:
  "INSTANCES_LOCKED (interfere w) = INSTANCES_LOCKED w"
  by (simp add: interfere_def foldl_apply_action_registry split: list.splits)

lemma os_path_isfile_registry:
  "os_path_isfile p w = (b, w') \<Longrightarrow> INSTANCES_LOCKED w' = INSTANCES_LOCKED w"
  by (auto simp: os_path_isfile_def Let_def interfere_registry)

lemma os_remove_registry:
  "os_remove p w = (r, w') \<Longrightarrow> INSTANCES_LOCKED w' = INSTANCES_LOCKED w"
  by (auto simp: os_remove_def Let_def interfere_registry split: option.splits entry.splits)

lemma os_remove_error:
  "os_remove p w = (Inl e, w') \<Longrightarrow> e = FileNotFoundError \<or> e = IsADirectoryError"
  by (auto simp: os_remove_def Let_def split: option.splits entry.splits)

lemma os_remove_gone:
  "os_remove p w = (Inr u, w') \<Longrightarrow> lookup w' p = None"
  by (auto simp: os_remove_def Let_def lookup_def delete_conv split: option.splits entry.splits)

lemma os_listdir_registry:
  "os_listdir d w = (r, w') \<Longrightarrow> INSTANCES_LOCKED w' = INSTANCES_LOCKED w"
  by (auto simp: os_listdir_def Let_def interfere_registry split: option.splits entry.splits)

lemma os_listdir_error:
  "os_listdir d w = (Inl e, w') \<Longrightarrow> e = FileNotFoundError \<or> e = NotADirectoryError"
  by (auto simp: os_listdir_def Let_def split: option.splits entry.splits)

lemma os_path_getmtime_registry:
  "os_path_getmtime p w = (r, w') \<Longrightarrow> INSTANCES_LOCKED w' = INSTANCES_LOCKED w"
  by (auto simp: os_path_getmtime_def Let_def interfere_registry split: option.splits)

lemma os_path_getmtime_error:
  "os_path_getmtime p w = (Inl e, w') \<Longrightarrow> e = FileNotFoundError"
  by (auto simp: os_path_getmtime_def Let_def split: option.splits)

lemma tempfile_mtime_registry:
  "tempfile_mtime d w = (r, w') \<Longrightarrow> INSTANCES_LOCKED w' = INSTANCES_LOCKED w"
  by (auto simp: tempfile_mtime_def Let_def interfere_registry split: if_splits)

lemma tempfile_mtime_error:
  "tempfile_mtime d w = (Inl e, w') \<Longrightarrow> e = FileNotFoundError"
  by (auto simp: tempfile_mtime_def Let_def split: if_splits)

lemma open_w_registry:
  "open_w p w = (r, w') \<Longrightarrow> INSTANCES_LOCKED w' = INSTANCES_LOCKED w"
  by (auto simp: open_w_def Let_def interfere_registry split: if_splits)

lemma open_w_error:
  "open_w p w = (Inl e, w') \<Longrightarrow> e = FileNotFoundError \<or> e = IsADirectoryError"
  by (auto simp: open_w_def Let_def split: if_splits)

lemma time_sleep_registry:
  "INSTANCES_LOCKED (time_sleep d w) = INSTANCES_LOCKED w"
  by (simp add: time_sleep_def interfere_registry)

lemma random_randrange_registry:
  "random_randrange n w = (i, w') \<Longrightarrow> INSTANCES_LOCKED w' = INSTANCES_LOCKED w"
  by (auto simp: random_randrange_def split: list.splits)

lemma serverTimeLock_cached:
  "p_serverTimeLock self = Some t \<Longrightarrow> serverTimeLock self w = (Inr t, self, w)"
  by (simp add: serverTimeLock_def)

lemma serverTimeLock_result:
  "serverTimeLock self w = (r, self', w') \<Longrightarrow>
     INSTANCES_LOCKED w' = INSTANCES_LOCKED w
     \<and> (\<exists>c. self' = self\<lparr>p_serverTimeLock := c\<rparr>)
     \<and> (\<forall>t. p_serverTimeLock self = Some t \<longrightarrow> self' = self \<and> w' = w \<and> r = Inr t)
     \<and> (\<forall>t. r = Inr t \<longrightarrow> p_serverTimeLock self' = Some t)
     \<and> (\<forall>e. r = Inl e \<longrightarrow> e = FileNotFoundError)"
  apply (cases "p_serverTimeLock self")
   apply (cases "tempfile_mtime (p_folder self) w")
  subgoal for a b
    apply (cases a)
     apply (auto simp: serverTimeLock_def Let_def dest: tempfile_mtime_registry tempfile_mtime_error)
     apply (rule exI[of _ None], simp)
    done
  apply (auto simp: serverTimeLock_def)
  apply (rule exI[of _ "p_serverTimeLock self"], simp)
  done

lemma evolves_refl: "evolves self self"
  unfolding evolves_def by (auto intro: exI[of _ "p_serverTimeLock self"])

lemma evolves_trans: "evolves a b \<Longrightarrow> evolves b c \<Longrightarrow> evolves a c"
  unfolding evolves_def by auto

lemma evolves_fields:
  assumes "evolves self self'"
  shows "oid self' = oid self" "timeout self' = timeout self" "p_folder self' = p_folder self"
    "p_filename self' = p_filename self" "p_pathLocker self' = p_pathLocker self"
    "p_id self' = p_id self" "p_isLocked self' = p_isLocked self" "p_start self' = p_start self"
  using assms unfolding evolves_def by auto

lemma evolves_cached:
  "evolves self self' \<Longrightarrow> p_serverTimeLock self = Some t \<Longrightarrow> self' = self"
  unfolding evolves_def by auto

lemma serverTimeLock_evolves:
  "serverTimeLock self w = (r, self', w') \<Longrightarrow> evolves self self'"
  using serverTimeLock_result[of self w r self' w'] unfolding evolves_def by auto

lemma serverTimeLock_registry:
  "serverTimeLock self w = (r, self', w') \<Longrightarrow> INSTANCES_LOCKED w' = INSTANCES_LOCKED w"
  using serverTimeLock_result[of self w r self' w'] by simp

lemma serverTimeLock_error:
  "serverTimeLock self w = (Inl e, self', w') \<Longrightarrow> e = FileNotFoundError"
  using serverTimeLock_result[of self w "Inl e" self' w'] by simp

lemma check_age_evolves:
  "check_age self w path = (r, self', w') \<Longrightarrow> evolves self self'"
  unfolding check_age_def
  by (auto split: prod.splits sum.splits if_splits
      dest: serverTimeLock_evolves intro: evolves_refl)

lemma check_age_registry:
  "check_age self w path = (r, self', w') \<Longrightarrow> INSTANCES_LOCKED w' = INSTANCES_LOCKED w"
  unfolding check_age_def
  by (auto split: prod.splits sum.splits if_splits
      dest!: os_path_getmtime_registry serverTimeLock_registry os_remove_registry)

lemma check_age_error:
  "check_age self w path = (Inl e, self', w') \<Longrightarrow> isOSError e"
  unfolding check_age_def
  by (auto split: prod.splits sum.splits if_splits
      dest!: os_path_getmtime_error serverTimeLock_error os_remove_error)

lemma try_check_age_evolves:
  "try_check_age self w path = (r, self', w') \<Longrightarrow> evolves self self'"
  unfolding try_check_age_def
  by (auto split: prod.splits sum.splits if_splits dest: check_age_evolves)

lemma try_check_age_registry:
  "try_check_age self w path = (r, self', w') \<Longrightarrow> INSTANCES_LOCKED w' = INSTANCES_LOCKED w"
  unfolding try_check_age_def
  by (auto split: prod.splits sum.splits if_splits dest: check_age_registry)

lemma try_check_age_ok:
  "try_check_age self w path = (r, self', w') \<Longrightarrow> r = Inr ()"
  unfolding try_check_age_def
  by (auto split: prod.splits sum.splits if_splits dest: check_age_error)

lemma cleanup_result:
  "cleanup self w ps = (r, self', w') \<Longrightarrow>
     evolves self self' \<and> INSTANCES_LOCKED w' = INSTANCES_LOCKED w \<and> r = Inr ()"
proof (induction ps arbitrary: self w)
  case Nil
  then show ?case by (simp add: evolves_refl)
next
  case (Cons p ps)
  obtain r1 s1 w1 where t: "try_check_age self w p = (r1, s1, w1)"
    by (cases "try_check_age self w p") auto
  from try_check_age_ok[OF t] have r1: "r1 = Inr ()" .
  from Cons.prems t r1 have "cleanup s1 w1 ps = (r, self', w')" by simp
  from Cons.IH[OF this] try_check_age_evolves[OF t] try_check_age_registry[OF t] show ?case
    by (auto intro: evolves_trans)
qed

lemma getLockFileIds_evolves:
  "getLockFileIds re_compile self w = (r, self', w') \<Longrightarrow> evolves self self'"
  unfolding getLockFileIds_def Let_def
  by (auto split: prod.splits sum.splits option.splits dest!: cleanup_result intro: evolves_refl)

lemma getLockFileIds_registry:
  "getLockFileIds re_compile self w = (r, self', w') \<Longrightarrow> INSTANCES_LOCKED w' = INSTANCES_LOCKED w"
  unfolding getLockFileIds_def Let_def
  by (auto split: prod.splits sum.splits option.splits
      dest!: os_listdir_registry cleanup_result)

lemma getLockFileIds_error:
  "getLockFileIds re_compile self w = (Inl e, self', w') \<Longrightarrow>
     (re_compile (LOCK_REGEX_FORMAT (p_filename self)) = None \<and> e = re_error)
     \<or> (fst (os_listdir (p_folder self) w) = Inl e
         \<and> (e = FileNotFoundError \<or> e = NotADirectoryError))"
  unfolding getLockFileIds_def Let_def
  by (auto split: prod.splits sum.splits option.splits dest!: cleanup_result os_listdir_error)

lemma stable_refl: "stable self self"
  by (simp add: stable_def)

lemma stable_trans: "stable a b \<Longrightarrow> stable b c \<Longrightarrow> stable a c"
  by (simp add: stable_def)

lemma evolves_stable: "evolves self self' \<Longrightarrow> stable self self'"
  unfolding evolves_def stable_def by auto

lemma unlock_unregisters:
  "unlock self w = (r, w') \<Longrightarrow> oid self \<notin> set (INSTANCES_LOCKED w')"
  unfolding unlock_def Let_def
  by (auto split: option.splits prod.splits if_splits
      dest!: os_path_isfile_registry os_remove_registry)

lemma unlock_error:
  "unlock self w = (Inl e, w') \<Longrightarrow> e = FileNotFoundError \<or> e = IsADirectoryError"
  unfolding unlock_def Let_def
  by (auto split: option.splits prod.splits if_splits dest!: os_remove_error)

lemma os_path_isfile_result:
  "os_path_isfile p w = (f, w') \<Longrightarrow> f = isfile w' p"
  by (auto simp: os_path_isfile_def Let_def)

lemma unlock_no_file:
  "unlock self w = (Inr u, w') \<Longrightarrow> p_pathLocker self = Some p \<Longrightarrow> \<not> isfile w' p"
  unfolding unlock_def Let_def
  by (auto split: option.splits prod.splits if_splits
      simp: isfile_def dest!: os_remove_gone os_path_isfile_result)

lemma sleep_timeout:
  "sleep self w = (Inl TimeoutError, w') \<Longrightarrow>
     \<exists>s. p_start self = Some s \<and> s + of_int (timeout self) < time_time w
          \<and> unlock self w = (Inr (), w')"
  unfolding sleep_def
  by (auto split: option.splits prod.splits if_splits sum.splits dest: unlock_error)

lemma sleep_ok_registry:
  "sleep self w = (Inr u, w') \<Longrightarrow> INSTANCES_LOCKED w' = INSTANCES_LOCKED w"
  unfolding sleep_def
  by (auto split: option.splits prod.splits if_splits sum.splits simp: time_sleep_registry)

lemma sleep_error:
  "sleep self w = (Inl e, w') \<Longrightarrow>
     (e = TypeError \<and> w' = w) \<or> isOSError e"
  unfolding sleep_def
  by (auto split: option.splits prod.splits if_splits sum.splits dest: unlock_error)

lemma draw_loop_result:
  "draw_loop n self w = Some (self', w') \<Longrightarrow>
     INSTANCES_LOCKED w' = INSTANCES_LOCKED w \<and> stable self self'
     \<and> p_isLocked self' = p_isLocked self \<and> p_pathLocker self' \<noteq> None"
proof (induction n arbitrary: self w)
  case 0
  then show ?case by simp
next
  case (Suc n)
  show ?case
  proof (cases "p_pathLocker self")
    case None
    obtain i w2 where r: "random_randrange RAND_RANGE w = (i, w2)"
      by (cases "random_randrange RAND_RANGE w") auto
    let ?s = "self\<lparr>p_id := i,
      p_pathLocker := Some (p_folder self @ [LOCK_FORMAT (p_filename self) i])\<rparr>"
    from Suc.prems None r have "draw_loop n ?s w2 = Some (self', w')"
      by (simp add: Let_def)
    from Suc.IH[OF this] random_randrange_registry[OF r] show ?thesis
      by (simp add: stable_def)
  next
    case (Some p)
    obtain f w1 where f: "os_path_isfile p w = (f, w1)"
      by (cases "os_path_isfile p w") auto
    show ?thesis
    proof (cases f)
      case True
      obtain i w2 where r: "random_randrange RAND_RANGE w1 = (i, w2)"
        by (cases "random_randrange RAND_RANGE w1") auto
      let ?s = "self\<lparr>p_id := i,
        p_pathLocker := Some (p_folder self @ [LOCK_FORMAT (p_filename self) i])\<rparr>"
      from Suc.prems Some f True r have "draw_loop n ?s w2 = Some (self', w')"
        by (simp add: Let_def)
      from Suc.IH[OF this] random_randrange_registry[OF r] os_path_isfile_registry[OF f]
      show ?thesis by (simp add: stable_def)
    next
      case False
      with Suc.prems Some f have "self' = self" "w' = w1" by (simp_all add: Let_def)
      with os_path_isfile_registry[OF f] Some show ?thesis by (simp add: stable_refl)
    qed
  qed
qed

lemma create_ticket_registry:
  "create_ticket self w = (r, w') \<Longrightarrow> INSTANCES_LOCKED w' = INSTANCES_LOCKED w"
  unfolding create_ticket_def
  by (auto split: option.splits prod.splits sum.splits if_splits dest!: open_w_registry)

lemma create_ticket_error:
  "create_ticket self w = (Inl e, w') \<Longrightarrow>
     e = TypeError \<or> e = Exception ''Cannot create the lock file''"
  unfolding create_ticket_def
  by (auto split: option.splits prod.splits sum.splits if_splits dest: open_w_error)

lemma py_min_error: "py_min ids = Inl e \<Longrightarrow> e = ValueError"
  by (cases ids) auto

lemma wait_loop_stable:
  "wait_loop re_compile n self w = Some (r, self', w') \<Longrightarrow>
     stable self self' \<and> p_pathLocker self' = p_pathLocker self \<and> p_id self' = p_id self"
proof (induction n arbitrary: self w)
  case 0
  then show ?case by simp
next
  case (Suc n)
  obtain r1 w1 where s: "sleep self w = (r1, w1)" by (cases "sleep self w") auto
  show ?case
  proof (cases r1)
    case (Inl e)
    with Suc.prems s show ?thesis by (simp add: stable_refl)
  next
    case (Inr u)
    obtain r2 self2 w2 where g: "getLockFileIds re_compile self w1 = (r2, self2, w2)"
      by (cases "getLockFileIds re_compile self w1") auto
    note ev = getLockFileIds_evolves[OF g]
    note st = evolves_stable[OF ev] evolves_fields[OF ev]
    show ?thesis
    proof (cases r2)
      case (Inl e)
      with Suc.prems s Inr g st show ?thesis by simp
    next
      case ids: (Inr ids)
      show ?thesis
      proof (cases "py_min ids")
        case (Inl e)
        with Suc.prems s Inr g ids st show ?thesis by simp
      next
        case m: (Inr m)
        show ?thesis
        proof (cases "m = p_id self2")
          case True
          with Suc.prems s Inr g ids m have "self' = self2\<lparr>p_isLocked := False\<rparr>" by simp
          with st show ?thesis by (simp add: stable_def)
        next
          case False
          with Suc.prems s Inr g ids m have "wait_loop re_compile n self2 w2 = Some (r, self', w')" by simp
          from Suc.IH[OF this] st show ?thesis by (auto intro: stable_trans)
        qed
      qed
    qed
  qed
qed

lemma wait_loop_timeout:
  "wait_loop re_compile n self w = Some (Inl TimeoutError, self', w') \<Longrightarrow>
     \<exists>w0 s. p_start self' = Some s \<and> s + of_int (timeout self') < time_time w0
            \<and> unlock self' w0 = (Inr (), w')"
proof (induction n arbitrary: self w)
  case 0
  then show ?case by simp
next
  case (Suc n)
  obtain r1 w1 where s: "sleep self w = (r1, w1)" by (cases "sleep self w") auto
  show ?case
  proof (cases r1)
    case (Inl e)
    with Suc.prems s have "sleep self' w = (Inl TimeoutError, w')" by simp
    from sleep_timeout[OF this] show ?thesis by blast
  next
    case (Inr u)
    obtain r2 self2 w2 where g: "getLockFileIds re_compile self w1 = (r2, self2, w2)"
      by (cases "getLockFileIds re_compile self w1") auto
    show ?thesis
    proof (cases r2)
      case (Inl e)
      with Suc.prems s Inr g getLockFileIds_error[of re_compile self w1 e self2 w2] show ?thesis by auto
    next
      case ids: (Inr ids)
      show ?thesis
      proof (cases "py_min ids")
        case (Inl e)
        with Suc.prems s Inr g ids py_min_error[of ids e] show ?thesis by auto
      next
        case m: (Inr m)
        with Suc.prems s Inr g ids have "wait_loop re_compile n self2 w2 = Some (Inl TimeoutError, self', w')"
          by (simp split: if_splits)
        from Suc.IH[OF this] show ?thesis .
      qed
    qed
  qed
qed

lemma wait_loop_isLocked:
  "wait_loop re_compile n self w = Some (Inl e, self', w') \<Longrightarrow> p_isLocked self' = p_isLocked self"
proof (induction n arbitrary: self w)
  case 0
  then show ?case by simp
next
  case (Suc n)
  obtain r1 w1 where s: "sleep self w = (r1, w1)" by (cases "sleep self w") auto
  show ?case
  proof (cases r1)
    case (Inl e)
    with Suc.prems s show ?thesis by simp
  next
    case (Inr u)
    obtain r2 self2 w2 where g: "getLockFileIds re_compile self w1 = (r2, self2, w2)"
      by (cases "getLockFileIds re_compile self w1") auto
    note st = evolves_fields[OF getLockFileIds_evolves[OF g]]
    show ?thesis
    proof (cases r2)
      case (Inl e)
      with Suc.prems s Inr g st show ?thesis by simp
    next
      case ids: (Inr ids)
      show ?thesis
      proof (cases "py_min ids")
        case (Inl e)
        with Suc.prems s Inr g ids st show ?thesis by simp
      next
        case m: (Inr m)
        with Suc.prems s Inr g ids have "wait_loop re_compile n self2 w2 = Some (Inl e, self', w')"
          by (simp split: if_splits)
        from Suc.IH[OF this] st show ?thesis by simp
      qed
    qed
  qed
qed

lemma wait_loop_acquired:
  "wait_loop re_compile n self w = Some (Inr u, self', w') \<Longrightarrow> \<not> p_isLocked self'"
proof (induction n arbitrary: self w)
  case 0
  then show ?case by simp
next
  case (Suc n)
  then show ?case
    by (auto split: prod.splits sum.splits if_splits)
qed

lemma wait_loop_registry:
  "wait_loop re_compile n self w = Some (r, self', w') \<Longrightarrow>
     (case r of Inl e \<Rightarrow> \<not> isOSError e | Inr _ \<Rightarrow> True) \<Longrightarrow>
     INSTANCES_LOCKED w' = INSTANCES_LOCKED w"
proof (induction n arbitrary: self w)
  case 0
  then show ?case by simp
next
  case (Suc n)
  obtain r1 w1 where s: "sleep self w = (r1, w1)" by (cases "sleep self w") auto
  show ?case
  proof (cases r1)
    case (Inl e)
    with Suc.prems s sleep_error[of self w e w1] show ?thesis by auto
  next
    case (Inr u)
    note r1 = sleep_ok_registry[OF s[unfolded Inr]]
    obtain r2 self2 w2 where g: "getLockFileIds re_compile self w1 = (r2, self2, w2)"
      by (cases "getLockFileIds re_compile self w1") auto
    note r2 = getLockFileIds_registry[OF g]
    show ?thesis
    proof (cases r2)
      case (Inl e)
      with Suc.prems s Inr g r1 r2 show ?thesis by simp
    next
      case ids: (Inr ids)
      show ?thesis
      proof (cases "py_min ids")
        case (Inl e)
        with Suc.prems s Inr g ids r1 r2 show ?thesis by simp
      next
        case m: (Inr m)
        show ?thesis
        proof (cases "m = p_id self2")
          case True
          with Suc.prems s Inr g ids m r1 r2 show ?thesis by simp
        next
          case False
          with Suc.prems s Inr g ids m have "wait_loop re_compile n self2 w2 = Some (r, self', w')" by simp
          from Suc.IH[OF this Suc.prems(2)] r1 r2 show ?thesis by simp
        qed
      qed
    qed
  qed
qed

lemma lock_post_step:
  "stable self s1 \<Longrightarrow> INSTANCES_LOCKED w1 = INSTANCES_LOCKED w \<Longrightarrow>
   lock_post s1 w1 r self' w' \<Longrightarrow> lock_post self w r self' w'"
  unfolding lock_post_def by (auto intro: stable_trans)

lemma lock_post_error:
  "stable self self' \<Longrightarrow> p_isLocked self' \<Longrightarrow> e \<noteq> TimeoutError \<Longrightarrow>
   (\<not> isOSError e \<Longrightarrow> INSTANCES_LOCKED w' = INSTANCES_LOCKED w) \<Longrightarrow>
   lock_post self w (Inl e) self' w'"
  unfolding lock_post_def by auto

lemma lock_loop_post:
  "lock_loop re_compile n self w = Some (r, self', w') \<Longrightarrow> lock_post self w r self' w'"
proof (induction n arbitrary: self w)
  case 0
  then show ?case by simp
next
  case (Suc n)
  show ?case
  proof (cases "p_isLocked self")
    case False
    with Suc.prems have "r = Inr ()" "self' = self" "w' = w" by auto
    with False show ?thesis by (simp add: lock_post_def stable_refl)
  next
    case locked: True
    obtain r1 self1 w1 where g: "getLockFileIds re_compile self w = (r1, self1, w1)"
      by (cases "getLockFileIds re_compile self w") auto
    note ev = getLockFileIds_evolves[OF g]
    note st1 = evolves_stable[OF ev]
    note f1 = evolves_fields[OF ev]
    note reg1 = getLockFileIds_registry[OF g]
    show ?thesis
    proof (cases r1)
      case (Inl e)
      with Suc.prems locked g have r: "r = Inl e" "self' = self1" "w' = w1" by simp_all
      from getLockFileIds_error[OF g[unfolded Inl]] have "e \<noteq> TimeoutError" by auto
      with r st1 f1 locked reg1 show ?thesis by (auto intro!: lock_post_error)
    next
      case ids: (Inr ids)
      show ?thesis
      proof (cases "ids = []")
        case True
        from Suc.prems locked g ids True obtain self2 w2 where
          d: "draw_loop n self1 w1 = Some (self2, w2)"
          by (cases "draw_loop n self1 w1") auto
        note dr = draw_loop_result[OF d]
        have st2: "stable self self2" using st1 dr by (auto intro: stable_trans)
        have l2: "p_isLocked self2" using dr f1 locked by simp
        obtain r3 w3 where c: "create_ticket self2 w2 = (r3, w3)"
          by (cases "create_ticket self2 w2") auto
        have reg3: "INSTANCES_LOCKED w3 = INSTANCES_LOCKED w"
          using create_ticket_registry[OF c] dr reg1 by simp
        show ?thesis
        proof (cases r3)
          case (Inl e)
          with Suc.prems locked g ids True d c have r: "r = Inl e" "self' = self2" "w' = w3"
            by simp_all
          from create_ticket_error[OF c[unfolded Inl]] have "e \<noteq> TimeoutError" by auto
          with r st2 l2 reg3 show ?thesis by (auto intro!: lock_post_error)
        next
          case (Inr u)
          from Suc.prems locked g ids True d c Inr obtain r4 self3 w4 where
            wl: "wait_loop re_compile n self2 w3 = Some (r4, self3, w4)"
            by (cases "wait_loop re_compile n self2 w3") auto
          have st3: "stable self self3"
            using wait_loop_stable[OF wl] st2 by (auto intro: stable_trans)
          show ?thesis
          proof (cases r4)
            case e: (Inl e)
            with Suc.prems locked g ids True d c Inr wl
            have r: "r = Inl e" "self' = self3" "w' = w4" by simp_all
            have l3: "p_isLocked self3" using wait_loop_isLocked[OF wl[unfolded e]] l2 by simp
            have t: "e = TimeoutError \<Longrightarrow>
              \<exists>w0 s. p_start self3 = Some s \<and> s + of_int (timeout self3) < time_time w0
                  \<and> unlock self3 w0 = (Inr (), w4)"
              using wait_loop_timeout[of re_compile n self2 w3 self3 w4] wl e by simp
            have rg: "\<not> isOSError e \<Longrightarrow> INSTANCES_LOCKED w4 = INSTANCES_LOCKED w"
              using wait_loop_registry[OF wl] e reg3 by simp
            from r st3 l3 t rg show ?thesis unfolding lock_post_def by auto
          next
            case u: (Inr u')
            with Suc.prems locked g ids True d c Inr wl
            have "lock_loop re_compile n self3 w4 = Some (r, self', w')" by simp
            from Suc.IH[OF this] have p: "lock_post self3 w4 r self' w'" .
            have "INSTANCES_LOCKED w4 = INSTANCES_LOCKED w"
              using wait_loop_registry[OF wl] u reg3 by simp
            from lock_post_step[OF st3 this p] show ?thesis .
          qed
        qed
      next
        case False
        obtain r2 w2 where s: "sleep self1 w1 = (r2, w2)" by (cases "sleep self1 w1") auto
        show ?thesis
        proof (cases r2)
          case e: (Inl e)
          with Suc.prems locked g ids False s
          have r: "r = Inl e" "self' = self1" "w' = w2" by simp_all
          have t: "e = TimeoutError \<Longrightarrow>
              \<exists>w0 s. p_start self1 = Some s \<and> s + of_int (timeout self1) < time_time w0
                  \<and> unlock self1 w0 = (Inr (), w2)"
            using sleep_timeout[of self1 w1 w2] s e by blast
          have rg: "\<not> isOSError e \<Longrightarrow> INSTANCES_LOCKED w2 = INSTANCES_LOCKED w"
            using sleep_error[OF s[unfolded e]] reg1 by auto
          from r st1 f1 locked t rg show ?thesis unfolding lock_post_def by auto
        next
          case u: (Inr u')
          with Suc.prems locked g ids False s
          have "lock_loop re_compile n self1 w2 = Some (r, self', w')" by simp
          from Suc.IH[OF this] have p: "lock_post self1 w2 r self' w'" .
          have "INSTANCES_LOCKED w2 = INSTANCES_LOCKED w"
            using sleep_ok_registry[OF s[unfolded u]] reg1 by simp
          from lock_post_step[OF st1 this p] show ?thesis .
        qed
      qed
    qed
  qed
qed


lemma run_timeout:
  "lock plain_re_compile 6 ex_locker ex_world_rival = Some (Inl TimeoutError, ex_locker_timed_out, ex_world_timed_out)"
  by code_simp

lemma lock_begin_post:
  assumes "lock re_compile n self w = Some (r, self', w')" and "\<not> p_isLocked self"
  shows "lock_post (self\<lparr>p_start := Some (time_time w), p_isLocked := True\<rparr>)
           (w\<lparr>INSTANCES_LOCKED := List.insert (oid self) (INSTANCES_LOCKED w)\<rparr>) r self' w'"
  using assms lock_loop_post[of re_compile n _ _ r self' w']
  by (simp add: lock_def Let_def time_time_def)

lemma lock_not_locked:
  "lock re_compile n self w = Some (Inl e, self', w') \<Longrightarrow> e \<noteq> RuntimeError \<Longrightarrow> \<not> p_isLocked self"
  by (auto simp: lock_def)

text \<open>
  Claim C10. When \<open>lock\<close> has raised the timeout error, \<open>__isLocked\<close> is still set:
  \<open>locked\<close> is true, and every later \<open>lock\<close> on the handle, with any fuel and in any
  world, raises the \<open>RuntimeError\<close> of an already locked handle at once, leaving the
  handle and the world as they are. (\<open>unlock\<close> does not write the flag.)
\<close>

theorem C10_timed_out_handle_stays_locked:
  assumes "lock re_compile n self w = Some (Inl TimeoutError, self', w')"
  shows "locked self' \<and> lock re_compile m self' w'' = Some (Inl RuntimeError, self', w'')"
proof -
  from assms have "\<not> p_isLocked self" by (auto dest: lock_not_locked)
  from lock_begin_post[OF assms this] have "p_isLocked self'" by (simp add: lock_post_def)
  then show ?thesis by (simp add: locked_def lock_def)
qed

theorem C10_witness:
  "lock plain_re_compile 6 ex_locker ex_world_rival
     = Some (Inl TimeoutError, ex_locker_timed_out, ex_world_timed_out)
   \<and> locked ex_locker_timed_out
   \<and> lock plain_re_compile 6 ex_locker_timed_out ex_world
     = Some (Inl RuntimeError, ex_locker_timed_out, ex_world)"
  using run_timeout C10_timed_out_handle_stays_locked[OF run_timeout, of 6 ex_world]
  by simp

text \<open>
  Claim C5, at a failing input. A handle on an empty directory, no peers: \<open>lock\<close>
  returns normally and the ticket of the handle is in the directory, but \<open>locked\<close>
  is false, since the loop of \<open>lock\<close> ends by clearing \<open>__isLocked\<close>.
\<close>

theorem C5_locked_is_false_after_acquisition:
  "lock plain_re_compile 5 ex_locker ex_world = Some (Inr (), ex_locker_acquired, ex_world_acquired)
   \<and> locked ex_locker_acquired = False"
  by code_simp

text \<open>
  Claim C4, at a failing input. After the successful \<open>lock\<close> of the run above, a
  second \<open>lock\<close> on the same handle does not raise \<open>RuntimeError\<close>: it lists the
  directory, waits behind its own ticket until the timeout, removes that ticket and
  raises \<open>TimeoutError\<close>.
\<close>

theorem C4_second_lock_is_not_refused:
  "lock plain_re_compile 5 ex_locker ex_world = Some (Inr (), ex_locker_acquired, ex_world_acquired)
   \<and> map_option (\<lambda>(r, self', w'). (r, fs w')) (lock plain_re_compile 6 ex_locker_acquired ex_world_acquired)
     = Some (Inl TimeoutError, [([''data''], Dir 0)])
   \<and> fs ex_world_acquired = [([''data''], Dir 0), ([''data'', ''locker.000042''], File 500)]"
  by code_simp

text \<open>
  Claim C1, at a failing input. The handle has created its ticket \<open>locker.000042\<close>;
  a peer removes it while the handle sleeps. The next listing is empty, \<open>min\<close>
  raises, and \<open>lock\<close> ends with \<open>ValueError\<close>: the handle neither acquires nor
  keeps waiting.
\<close>

theorem C1_empty_listing_raises:
  "map_option (\<lambda>(r, self', w'). (r, p_pathLocker self', fs w'))
     (lock plain_re_compile 5 ex_locker ex_world_reaped)
   = Some (Inl ValueError, Some [''data'', ''locker.000042''], [([''data''], Dir 0)])"
  by code_simp

lemma lock_stable:
  assumes "lock re_compile n self w = Some (r, self', w')"
  shows "stable (self\<lparr>p_start := p_start self', p_isLocked := p_isLocked self'\<rparr>) self'"
proof (cases "p_isLocked self")
  case True
  with assms have "self' = self" by (simp add: lock_def)
  then show ?thesis by (simp add: stable_def)
next
  case False
  from lock_begin_post[OF assms False] show ?thesis by (simp add: lock_post_def stable_def)
qed

text \<open>
  Claim C9. Once the property \<open>_serverTimeLock\<close> has returned a reading \<open>t\<close>, every
  later evaluation returns \<open>t\<close>, in whatever world (whatever the server's clock shows
  by then), without touching the file system; and the reading survives the listings
  and a whole \<open>lock\<close>.
\<close>

theorem C9_reference_clock_cached:
  assumes "serverTimeLock self w = (Inr t, self1, w1)"
  shows "serverTimeLock self1 w2 = (Inr t, self1, w2)
         \<and> (case getLockFileIds re_compile self1 w2 of
               (r, self2, w3) \<Rightarrow> serverTimeLock self2 w4 = (Inr t, self2, w4))
         \<and> (case lock re_compile n self1 w2 of
               None \<Rightarrow> True
             | Some (r, self3, w5) \<Rightarrow> serverTimeLock self3 w4 = (Inr t, self3, w4))"
proof -
  from serverTimeLock_result[OF assms] have c: "p_serverTimeLock self1 = Some t" by simp
  have a: "serverTimeLock self1 w2 = (Inr t, self1, w2)"
    using c by (rule serverTimeLock_cached)
  have b: "serverTimeLock self2 w4 = (Inr t, self2, w4)"
    if "getLockFileIds re_compile self1 w2 = (r, self2, w3)" for r self2 w3
    using evolves_cached[OF getLockFileIds_evolves[OF that] c] c
    by (simp add: serverTimeLock_cached)
  have d: "serverTimeLock self3 w4 = (Inr t, self3, w4)"
    if "lock re_compile n self1 w2 = Some (r, self3, w5)" for r self3 w5
    using lock_stable[OF that] c by (simp add: stable_def serverTimeLock_cached)
  from a b d show ?thesis by (auto split: prod.splits option.splits)
qed

theorem C9_witness:
  "serverTimeLock ex_locker ex_world = (Inr 500, ex_locker_clocked, ex_world)
   \<and> server_clock ex_world_acquired = 1001 / 2
   \<and> serverTimeLock ex_locker_clocked ex_world_acquired
       = (Inr 500, ex_locker_clocked, ex_world_acquired)"
proof -
  have first: "serverTimeLock ex_locker ex_world = (Inr 500, ex_locker_clocked, ex_world)"
    by code_simp
  have "server_clock ex_world_acquired = 1001 / 2" by code_simp
  with first C9_reference_clock_cached[OF first, of ex_world_acquired] show ?thesis by simp
qed

text \<open>
  Claim C7, as the code has it. In an iteration of the outer loop that finds no
  ticket and draws the path \<open>p\<close>, an error of \<open>open\<close> is caught and an \<open>Exception\<close>
  with the message \<open>Cannot create the lock file\<close> is raised in its place; \<open>lock\<close> ends
  there, in the world the failed \<open>open\<close> left, without another attempt.
\<close>

theorem C7_creation_failure_raises_exception:
  assumes "p_isLocked self"
    and "getLockFileIds re_compile self w = (Inr [], self1, w1)"
    and "draw_loop n self1 w1 = Some (self2, w2)"
    and "p_pathLocker self2 = Some p"
    and "open_w p w2 = (Inl e, w3)"
  shows "create_ticket self2 w2 = (Inl (Exception ''Cannot create the lock file''), w3)
         \<and> lock_loop re_compile (Suc n) self w
             = Some (Inl (Exception ''Cannot create the lock file''), self2, w3)"
proof -
  from open_w_error[OF assms(5)] have "isOSError e" by auto
  with assms(4,5)
  have c: "create_ticket self2 w2 = (Inl (Exception ''Cannot create the lock file''), w3)"
    by (simp add: create_ticket_def)
  with assms(1,2,3) show ?thesis by simp
qed

theorem C7_witness:
  "p_isLocked ex_locker_waiting
   \<and> getLockFileIds plain_re_compile ex_locker_waiting (ex_world_nofolder\<lparr>INSTANCES_LOCKED := [0]\<rparr>)
       = (Inr [], ex_locker_waiting,
          ex_world\<lparr>peers := [[], [Unlink [''data'']]], INSTANCES_LOCKED := [0]\<rparr>)
   \<and> draw_loop 4 ex_locker_waiting
         (ex_world\<lparr>peers := [[], [Unlink [''data'']]], INSTANCES_LOCKED := [0]\<rparr>)
       = Some (ex_locker_drawn,
          ex_world\<lparr>draws := [], peers := [[Unlink [''data'']]], INSTANCES_LOCKED := [0]\<rparr>)
   \<and> open_w [''data'', ''locker.000042'']
         (ex_world\<lparr>draws := [], peers := [[Unlink [''data'']]], INSTANCES_LOCKED := [0]\<rparr>)
       = (Inl FileNotFoundError,
          ex_world\<lparr>fs := [], draws := [], INSTANCES_LOCKED := [0]\<rparr>)
   \<and> lock_loop plain_re_compile 5 ex_locker_waiting (ex_world_nofolder\<lparr>INSTANCES_LOCKED := [0]\<rparr>)
       = Some (Inl (Exception ''Cannot create the lock file''), ex_locker_drawn,
          ex_world\<lparr>fs := [], draws := [], INSTANCES_LOCKED := [0]\<rparr>)"
proof -
  have a: "p_isLocked ex_locker_waiting" by code_simp
  have b: "getLockFileIds plain_re_compile ex_locker_waiting (ex_world_nofolder\<lparr>INSTANCES_LOCKED := [0]\<rparr>)
       = (Inr [], ex_locker_waiting,
          ex_world\<lparr>peers := [[], [Unlink [''data'']]], INSTANCES_LOCKED := [0]\<rparr>)"
    by code_simp
  have c: "draw_loop 4 ex_locker_waiting
         (ex_world\<lparr>peers := [[], [Unlink [''data'']]], INSTANCES_LOCKED := [0]\<rparr>)
       = Some (ex_locker_drawn,
          ex_world\<lparr>draws := [], peers := [[Unlink [''data'']]], INSTANCES_LOCKED := [0]\<rparr>)"
    by code_simp
  have d: "p_pathLocker ex_locker_drawn = Some [''data'', ''locker.000042'']" by code_simp
  have e: "open_w [''data'', ''locker.000042'']
         (ex_world\<lparr>draws := [], peers := [[Unlink [''data'']]], INSTANCES_LOCKED := [0]\<rparr>)
       = (Inl FileNotFoundError,
          ex_world\<lparr>fs := [], draws := [], INSTANCES_LOCKED := [0]\<rparr>)"
    by code_simp
  from C7_creation_failure_raises_exception[OF a b c d e] a b c e show ?thesis
    by simp
qed

text \<open>
  Claim C7 as stated fails: the folder is removed by a peer just before the ticket is
  created, \<open>open\<close> raises \<open>FileNotFoundError\<close>, and \<open>lock\<close> raises another error, the
  \<open>Exception\<close> of line 161.
\<close>

theorem C7_counterexample:
  "fst (open_w [''data'', ''locker.000042'']
         (ex_world\<lparr>draws := [], peers := [[Unlink [''data'']]], INSTANCES_LOCKED := [0]\<rparr>))
     = Inl FileNotFoundError
   \<and> map_option fst (lock plain_re_compile 5 ex_locker ex_world_nofolder)
     = Some (Inl (Exception ''Cannot create the lock file''))
   \<and> Exception ''Cannot create the lock file'' \<noteq> FileNotFoundError"
  by code_simp


lemma apply_action_next_oid: "next_oid (apply_action w a) = next_oid w"
  by (cases a) simp_all

lemma foldl_apply_action_next_oid: "next_oid (foldl apply_action w as) = next_oid w"
  by (induction as arbitrary: w) (simp_all add: apply_action_next_oid)

lemma interfere_next_oid: "next_oid (interfere w) = next_oid w"
  by (simp add: interfere_def foldl_apply_action_next_oid split: list.splits)

lemma init_same_namespace:
  assumes "init (folder @ [filename]) tmo w = (Inr locker, w1)"
    and "\<not> isdir (interfere w) (folder @ [filename])"
  shows "locker = \<lparr>oid = next_oid w, timeout = tmo, p_folder = folder, p_filename = filename,
                  p_pathLocker = None, p_id = - 1, p_isLocked = False, p_start = None,
                  p_serverTimeLock = None\<rparr>"
  using assms
  by (auto simp: init_def os_path_isdir_def os_path_split_def Let_def interfere_next_oid
      split: if_splits prod.splits)

text \<open>
  What the wrapper does. When a condition is given and is false on the arguments, the
  wrapper is the call of \<open>method\<close> itself: same result or error, same world, so no
  ticket. Otherwise the wrapper constructs a handle from the path \<open>folder/filename\<close>
  with the timeout of the wrapping handle and runs the call inside \<open>with\<close>: a failed
  \<open>lock\<close> is raised without calling \<open>method\<close>; after a successful one \<open>method\<close>
  runs and \<open>unlock\<close> follows, whether \<open>method\<close> returned or raised. The constructed
  handle is new and idle, and has the namespace of the wrapping handle when
  \<open>folder/filename\<close> is not a directory.
\<close>

lemma wrapper_cases:
  "(condition = Some c \<and> \<not> c args \<longrightarrow>
      wrapper re_compile self condition func n args w = Some (func args w))
   \<and> (condition = None \<or> (condition = Some c \<and> c args) \<longrightarrow>
      wrapper re_compile self condition func n args w
        = (case init (p_folder self @ [p_filename self]) (timeout self) w of
             (Inl e, w1) \<Rightarrow> Some (Inl e, w1)
           | (Inr locker, w1) \<Rightarrow> with_statement re_compile n locker (func args) w1))
   \<and> (lock re_compile n locker w1 = Some (Inl e, locker1, w2) \<longrightarrow>
      with_statement re_compile n locker (func args) w1 = Some (Inl e, w2))
   \<and> (lock re_compile n locker w1 = Some (Inr (), locker1, w2) \<longrightarrow>
      with_statement re_compile n locker (func args) w1
        = Some (case unlock locker1 (snd (func args w2)) of
                  (Inl e, w4) \<Rightarrow> (Inl e, w4)
                | (Inr _, w4) \<Rightarrow> (fst (func args w2), w4)))
   \<and> (init (p_folder self @ [p_filename self]) (timeout self) w = (Inr locker, w1)
        \<and> \<not> isdir (interfere w) (p_folder self @ [p_filename self])
      \<longrightarrow> locker = \<lparr>oid = next_oid w, timeout = timeout self, p_folder = p_folder self,
                      p_filename = p_filename self, p_pathLocker = None, p_id = - 1,
                      p_isLocked = False, p_start = None, p_serverTimeLock = None\<rparr>)"
proof -
  have a: "wrapper re_compile self condition func n args w = Some (func args w)"
    if "condition = Some c" "\<not> c args"
    using that by (simp add: wrapper_def)
  have b: "wrapper re_compile self condition func n args w
        = (case init (p_folder self @ [p_filename self]) (timeout self) w of
             (Inl e, w1) \<Rightarrow> Some (Inl e, w1)
           | (Inr locker, w1) \<Rightarrow> with_statement re_compile n locker (func args) w1)"
    if "condition = None \<or> (condition = Some c \<and> c args)"
    using that by (auto simp: wrapper_def)
  have c: "with_statement re_compile n locker (func args) w1 = Some (Inl e, w2)"
    if "lock re_compile n locker w1 = Some (Inl e, locker1, w2)"
    using that by (simp add: with_statement_def enter_def)
  have d: "with_statement re_compile n locker (func args) w1
        = Some (case unlock locker1 (snd (func args w2)) of
                  (Inl e, w4) \<Rightarrow> (Inl e, w4)
                | (Inr _, w4) \<Rightarrow> (fst (func args w2), w4))"
    if "lock re_compile n locker w1 = Some (Inr (), locker1, w2)"
    using that
    by (auto simp: with_statement_def enter_def exit_def split: prod.splits sum.splits)
  from a b c d init_same_namespace[of "p_folder self" "p_filename self" "timeout self" w locker w1]
  show ?thesis by blast
qed

lemma py_min_Min: "ids \<noteq> [] \<Longrightarrow> py_min ids = Inr (Min (set ids))"
proof (cases ids)
  case Nil
  assume "ids \<noteq> []"
  with Nil show ?thesis by simp
next
  case (Cons a list)
  then show ?thesis using Min.set_eq_fold[of a list] by simp
qed

text \<open>
  One iteration of the inner loop of \<open>lock\<close>, after a sleep that did not time out:
  on a listing with tickets the handle wins exactly when the least listed id is its
  own, and waits on otherwise; on an empty listing \<open>lock\<close> ends with \<open>ValueError\<close>.
\<close>

lemma wait_loop_iteration:
  assumes "sleep self w = (Inr (), w1)" and "getLockFileIds re_compile self w1 = (Inr ids, self2, w2)"
  shows "wait_loop re_compile (Suc n) self w
         = (if ids = [] then Some (Inl ValueError, self2, w2)
            else if Min (set ids) = p_id self
              then Some (Inr (), self2\<lparr>p_isLocked := False\<rparr>, w2)
            else wait_loop re_compile n self2 w2)"
  using assms evolves_fields(6)[OF getLockFileIds_evolves[OF assms(2)]]
  by (cases "ids = []") (simp_all add: py_min_Min)

lemma wait_loop_lower_id_waits:
  assumes "sleep self w = (Inr (), w1)" and "getLockFileIds re_compile self w1 = (Inr ids, self2, w2)"
    and "j \<in> set ids" and "j < p_id self"
  shows "wait_loop re_compile (Suc n) self w = wait_loop re_compile n self2 w2"
proof -
  from assms(3) have ne: "ids \<noteq> []" by auto
  from assms(3) have "Min (set ids) \<le> j" by simp
  with assms(4) have "Min (set ids) \<noteq> p_id self" by simp
  with wait_loop_iteration[OF assms(1,2), of n] ne show ?thesis by simp
qed

lemma lock_success_not_locked:
  "lock re_compile n self w = Some (Inr (), self', w') \<Longrightarrow> \<not> locked self'"
proof -
  assume a: "lock re_compile n self w = Some (Inr (), self', w')"
  then have "\<not> p_isLocked self" by (auto simp: lock_def split: if_splits)
  from lock_begin_post[OF a this] show ?thesis by (simp add: lock_post_def locked_def)
qed















lemma wait_loop_log_snd: "snd (wait_loop_log re_compile n self w) = wait_loop re_compile n self w"
proof (induction n arbitrary: self w)
  case 0
  then show ?case by simp
next
  case (Suc n)
  have w: "wait_loop re_compile n s v = snd (wait_loop_log re_compile n s v)" for s v
    by (simp add: Suc.IH)
  show ?case
    unfolding wait_loop.simps wait_loop_log.simps w
    by (auto split: prod.splits sum.splits)
qed

lemma lock_loop_log_snd: "snd (lock_loop_log re_compile n self w) = lock_loop re_compile n self w"
proof (induction n arbitrary: self w)
  case 0
  then show ?case by simp
next
  case (Suc n)
  have w: "wait_loop re_compile n s v = snd (wait_loop_log re_compile n s v)" for s v
    by (simp add: wait_loop_log_snd)
  have l: "lock_loop re_compile n s v = snd (lock_loop_log re_compile n s v)" for s v
    by (simp add: Suc.IH)
  show ?case
    unfolding lock_loop.simps lock_loop_log.simps w l
    by (auto split: prod.splits sum.splits option.splits)
qed

lemma lock_log_snd: "snd (lock_log re_compile n self w) = lock re_compile n self w"
  by (simp add: lock_log_def lock_def Let_def lock_loop_log_snd)

lemma log_post_nil:
  "(\<And>s' w'. r \<noteq> Some (Inl TimeoutError, s', w')) \<Longrightarrow> log_post self ([], r)"
  by (auto simp: log_post_def)

lemma log_post_single:
  assumes "\<And>u s' w'. r = Some (Inr u, s', w') \<Longrightarrow> slept (self, w)"
    and "\<And>s' w'. r = Some (Inl TimeoutError, s', w') \<Longrightarrow>
           s' = self \<and> sleep self w = (Inl TimeoutError, w')"
  shows "log_post self ([(self, w)], r)"
  using assms by (auto simp: log_post_def stable_refl)

lemma log_post_cons:
  assumes "slept (self, w)" and "stable self s2" and "log_post s2 (polls, r)"
  shows "log_post self ((self, w) # polls, r)"
  using assms
  by (auto simp: log_post_def stable_refl list_all_iff intro: stable_trans dest: in_set_butlastD)

lemma log_post_stable:
  assumes "stable self s2" and "log_post s2 lr"
  shows "log_post self lr"
  using assms by (auto simp: log_post_def intro: stable_trans)

lemma log_post_append:
  assumes "log_post self (polls, Some (Inr u, s3, w4))" and "log_post self (polls', r)"
  shows "log_post self (polls @ polls', r)"
  using assms
  by (auto simp: log_post_def list_all_iff butlast_append dest: in_set_butlastD)

lemma slept_iff: "slept (s, v) = (\<exists>v'. sleep s v = (Inr (), v'))"
  by (auto simp: slept_def split: prod.splits sum.splits)

lemma wait_loop_log_post: "log_post self (wait_loop_log re_compile n self w)"
proof (induction n arbitrary: self w)
  case 0
  then show ?case by (simp add: log_post_nil)
next
  case (Suc n)
  obtain r1 w1 where s: "sleep self w = (r1, w1)" by (cases "sleep self w") auto
  show ?case
  proof (cases r1)
    case (Inl e)
    with s show ?thesis by (auto intro!: log_post_single)
  next
    case (Inr u)
    with s have sl: "slept (self, w)" by (simp add: slept_iff)
    obtain r2 self2 w2 where g: "getLockFileIds re_compile self w1 = (r2, self2, w2)"
      by (cases "getLockFileIds re_compile self w1") auto
    note st = evolves_stable[OF getLockFileIds_evolves[OF g]]
    show ?thesis
    proof (cases r2)
      case (Inl e)
      with getLockFileIds_error[of re_compile self w1 e self2 w2] g
      have "e \<noteq> TimeoutError" by auto
      with s Inr g Inl sl show ?thesis by (auto intro!: log_post_single)
    next
      case ids: (Inr ids)
      show ?thesis
      proof (cases "py_min ids")
        case (Inl e)
        with py_min_error[of ids e] have "e \<noteq> TimeoutError" by auto
        with s Inr g ids Inl sl show ?thesis by (auto intro!: log_post_single)
      next
        case m: (Inr m)
        show ?thesis
        proof (cases "m = p_id self2")
          case True
          with s Inr g ids m sl show ?thesis by (auto intro!: log_post_single)
        next
          case False
          obtain polls r where l: "wait_loop_log re_compile n self2 w2 = (polls, r)"
            by (cases "wait_loop_log re_compile n self2 w2") auto
          from Suc.IH[of self2 w2] l have "log_post self2 (polls, r)" by simp
          from log_post_cons[OF sl st this] s Inr g ids m False l show ?thesis by simp
        qed
      qed
    qed
  qed
qed

lemma lock_loop_log_post: "log_post self (lock_loop_log re_compile n self w)"
proof (induction n arbitrary: self w)
  case 0
  then show ?case by (simp add: log_post_nil)
next
  case (Suc n)
  show ?case
  proof (cases "p_isLocked self")
    case False
    then show ?thesis by (simp add: log_post_nil)
  next
    case locked: True
    obtain r1 self1 w1 where g: "getLockFileIds re_compile self w = (r1, self1, w1)"
      by (cases "getLockFileIds re_compile self w") auto
    note st1 = evolves_stable[OF getLockFileIds_evolves[OF g]]
    show ?thesis
    proof (cases r1)
      case (Inl e)
      with getLockFileIds_error[of re_compile self w e self1 w1] g
      have "e \<noteq> TimeoutError" by auto
      with locked g Inl show ?thesis by (simp add: log_post_nil)
    next
      case ids: (Inr ids)
      show ?thesis
      proof (cases "ids = []")
        case True
        show ?thesis
        proof (cases "draw_loop n self1 w1")
          case None
          with locked g ids True show ?thesis by (simp add: log_post_nil)
        next
          case (Some a)
          then obtain self2 w2 where d: "draw_loop n self1 w1 = Some (self2, w2)"
            by (cases a) auto
          from draw_loop_result[OF d] st1 have st2: "stable self self2"
            by (auto intro: stable_trans)
          obtain r3 w3 where c: "create_ticket self2 w2 = (r3, w3)"
            by (cases "create_ticket self2 w2") auto
          show ?thesis
          proof (cases r3)
            case (Inl e)
            with create_ticket_error[of self2 w2 e w3] c have "e \<noteq> TimeoutError" by auto
            with locked g ids True d c Inl show ?thesis by (simp add: log_post_nil)
          next
            case (Inr u)
            obtain polls r4 where wl: "wait_loop_log re_compile n self2 w3 = (polls, r4)"
              by (cases "wait_loop_log re_compile n self2 w3") auto
            from wait_loop_log_post[of self2 re_compile n w3] wl
            have p2: "log_post self2 (polls, r4)" by simp
            note p = log_post_stable[OF st2 p2]
            show ?thesis
            proof (cases r4)
              case None
              with locked g ids True d c Inr wl p show ?thesis by simp
            next
              case (Some b)
              obtain r5 self3 w4 where b: "b = (r5, self3, w4)" by (cases b) auto
              show ?thesis
              proof (cases r5)
                case (Inl e)
                with locked g ids True d c Inr wl p Some b show ?thesis by simp
              next
                case u: (Inr u')
                obtain polls' r where l: "lock_loop_log re_compile n self3 w4 = (polls', r)"
                  by (cases "lock_loop_log re_compile n self3 w4") auto
                from wl Some b u have "wait_loop re_compile n self2 w3 = Some (Inr u', self3, w4)"
                  using wait_loop_log_snd[of re_compile n self2 w3] by simp
                from wait_loop_stable[OF this] st2 have st3: "stable self self3"
                  by (auto intro: stable_trans)
                from Suc.IH[of self3 w4] l have "log_post self3 (polls', r)" by simp
                from log_post_append[OF p[unfolded Some b u] log_post_stable[OF st3 this]]
                  locked g ids True d c Inr wl Some b u l
                show ?thesis by simp
              qed
            qed
          qed
        qed
      next
        case False
        obtain r2 w2 where s: "sleep self1 w1 = (r2, w2)" by (cases "sleep self1 w1") auto
        show ?thesis
        proof (cases r2)
          case (Inl e)
          have "log_post self1 ([(self1, w1)], Some (Inl e, self1, w2))"
            using s Inl by (auto intro!: log_post_single)
          from log_post_stable[OF st1 this] locked g ids False s Inl show ?thesis by simp
        next
          case (Inr u)
          with s have sl: "slept (self1, w1)" by (simp add: slept_iff)
          obtain polls r where l: "lock_loop_log re_compile n self1 w2 = (polls, r)"
            by (cases "lock_loop_log re_compile n self1 w2") auto
          from Suc.IH[of self1 w2] l have "log_post self1 (polls, r)" by simp
          from log_post_stable[OF st1 log_post_cons[OF sl stable_refl this]]
            locked g ids False s Inr l
          show ?thesis by simp
        qed
      qed
    qed
  qed
qed

lemma sleep_ok_before_deadline:
  "sleep s v = (Inr u, v') \<Longrightarrow> p_start s = Some st \<Longrightarrow>
     \<not> (st + of_int (timeout s) < time_time v)"
  by (auto simp: sleep_def split: if_splits prod.splits sum.splits)

text \<open>
  Claim C3. Let \<open>lock\<close> raise the timeout error. Its poll points are the calls of
  \<open>__sleep\<close> of this very run (the logged \<open>lock\<close> is \<open>lock\<close>). The last of them is
  the one that raised: there the clock had passed the start of the call by more than
  the timeout, \<open>unlock\<close> ran, and the world it made is the world \<open>lock\<close> leaves, so
  nothing ran after it. At no earlier poll point had the clock passed the deadline.
  The handle is out of the registry and, if it has a ticket path, no file is there.
\<close>

theorem C3_timeout_self_release:
  assumes "lock re_compile n self w = Some (Inl TimeoutError, self', w')"
  shows "snd (lock_log re_compile n self w) = lock re_compile n self w
         \<and> fst (lock_log re_compile n self w) \<noteq> []
         \<and> fst (last (fst (lock_log re_compile n self w))) = self'
         \<and> time_time w + of_int (timeout self)
             < time_time (snd (last (fst (lock_log re_compile n self w))))
         \<and> unlock self' (snd (last (fst (lock_log re_compile n self w)))) = (Inr (), w')
         \<and> list_all (\<lambda>(s, v). \<not> (time_time w + of_int (timeout self) < time_time v))
              (butlast (fst (lock_log re_compile n self w)))
         \<and> oid self \<notin> set (INSTANCES_LOCKED w')
         \<and> (case p_pathLocker self' of None \<Rightarrow> True | Some p \<Rightarrow> \<not> isfile w' p)"
proof -
  let ?w1 = "w\<lparr>INSTANCES_LOCKED := List.insert (oid self) (INSTANCES_LOCKED w)\<rparr>"
  let ?s1 = "self\<lparr>p_start := Some (time_time w), p_isLocked := True\<rparr>"
  from assms have nl: "\<not> p_isLocked self" by (auto dest: lock_not_locked)
  obtain polls r where l: "lock_loop_log re_compile n ?s1 ?w1 = (polls, r)"
    by (cases "lock_loop_log re_compile n ?s1 ?w1") auto
  with nl have ll: "lock_log re_compile n self w = (polls, r)"
    by (simp add: lock_log_def Let_def time_time_def)
  from ll assms lock_log_snd[of re_compile n self w]
  have r: "r = Some (Inl TimeoutError, self', w')" by simp
  from lock_loop_log_post[of ?s1 re_compile n ?w1] l
  have post: "log_post ?s1 (polls, r)" by simp
  from post r have ne: "polls \<noteq> []" and la: "fst (last polls) = self'"
    and sl: "sleep self' (snd (last polls)) = (Inl TimeoutError, w')"
    by (auto simp: log_post_def)
  from post have st: "stable ?s1 (fst p)" if "p \<in> set polls" for p
    using that by (auto simp: log_post_def)
  from st[of "last polls"] ne la have st': "stable ?s1 self'" by simp
  from sleep_timeout[OF sl] obtain s where s: "p_start self' = Some s"
    "s + of_int (timeout self') < time_time (snd (last polls))"
    and u: "unlock self' (snd (last polls)) = (Inr (), w')"
    by auto
  from st' s have eq: "s = time_time w" "timeout self' = timeout self" "oid self' = oid self"
    by (auto simp: stable_def)
  have early: "\<not> (time_time w + of_int (timeout self) < time_time v)"
    if "(s0, v) \<in> set (butlast polls)" for s0 v
  proof -
    from that have m: "(s0, v) \<in> set polls" by (rule in_set_butlastD)
    from post that have "slept (s0, v)" by (auto simp: log_post_def list_all_iff)
    then obtain v' where "sleep s0 v = (Inr (), v')" by (auto simp: slept_iff)
    from sleep_ok_before_deadline[OF this, of "time_time w"] st[OF m]
    show ?thesis by (simp add: stable_def)
  qed
  from ll ne la s eq u early unlock_unregisters[OF u] unlock_no_file[OF u]
    lock_log_snd[of re_compile n self w]
  show ?thesis
    by (auto simp: list_all_iff split: option.splits)
qed

theorem C3_witness:
  "lock plain_re_compile 6 ex_locker ex_world_rival
     = Some (Inl TimeoutError, ex_locker_timed_out, ex_world_timed_out)
   \<and> map (\<lambda>(s, v). time_time v) (fst (lock_log plain_re_compile 6 ex_locker ex_world_rival))
       = [100, 201 / 2, 101, 203 / 2]
   \<and> time_time ex_world_rival + of_int (timeout ex_locker) = 101
   \<and> unlock ex_locker_timed_out
        (snd (last (fst (lock_log plain_re_compile 6 ex_locker ex_world_rival))))
       = (Inr (), ex_world_timed_out)
   \<and> oid ex_locker \<notin> set (INSTANCES_LOCKED ex_world_timed_out)
   \<and> \<not> isfile ex_world_timed_out [''data'', ''locker.000042'']"
proof -
  have a: "map (\<lambda>(s, v). time_time v) (fst (lock_log plain_re_compile 6 ex_locker ex_world_rival))
       = [100, 201 / 2, 101, 203 / 2]"
    by code_simp
  have b: "time_time ex_world_rival + of_int (timeout ex_locker) = 101" by code_simp
  from run_timeout C3_timeout_self_release[OF run_timeout] a b show ?thesis
    by (simp add: ex_locker_timed_out_def ex_locker_acquired_def)
qed








text \<open>
  Claim C8, at a failing input. The wrapping handle was made for the directory
  \<open>data\<close>, so its tickets are \<open>data/locker.NNNNNN\<close>, and another process holds
  \<open>data/locker.000007\<close>; \<open>data/locker\<close> is a directory. The wrapper constructs its
  handle from \<open>data/locker\<close>, the constructor takes a directory as the folder, and
  the wrapped call does not wait for the holder: it runs with its own ticket
  \<open>data/locker/locker.000042\<close> while \<open>data/locker.000007\<close> is there.
\<close>

theorem C8_wrapper_leaves_the_namespace:
  "p_folder ex_locker = [''data''] \<and> p_filename ex_locker = ''locker''
   \<and> fst (init (p_folder ex_locker @ [p_filename ex_locker]) (timeout ex_locker)
            ex_world_nested_held)
       = Inr (ex_locker\<lparr>oid := 1, p_folder := [''data'', ''locker'']\<rparr>)
   \<and> fst (getLockFileIds plain_re_compile ex_locker ex_world_nested_held) = Inr [7]
   \<and> map_option fst (wrapper plain_re_compile ex_locker None ex_method 5 () ex_world_nested_held)
       = Some (Inr [[''data''], [''data'', ''locker''], [''data'', ''locker.000007''],
                    [''data'', ''locker'', ''locker.000042'']])"
  by code_simp

end
